theory Spec2Isabelle
  imports Complex_Main
begin

section \<open>JavaScript strings and regular expressions\<close>

text \<open>
  A JavaScript string is modelled as an Isabelle \<open>string\<close>, a list of 8-bit characters.
  For a text of ASCII characters this is the JavaScript string (its UTF-16 code units)
  and its UTF-8 encoding alike. The source works on error messages with regular
  expression literals; they are embedded as values of the datatype \<open>rx\<close> and run by a
  backtracking matcher that tries alternatives in the order ECMAScript does: the left
  alternative first, greedy repetition longest first.
\<close>

definition digits :: string where
  "digits = ''0123456789''"

definition lower_letters :: string where
  "lower_letters = ''abcdefghijklmnopqrstuvwxyz''"

definition upper_letters :: string where
  "upper_letters = ''ABCDEFGHIJKLMNOPQRSTUVWXYZ''"

text \<open>The character classes the source's patterns use: \<open>.\<close>, \<open>\w\<close>, \<open>\d\<close> and \<open>[^c]\<close>.\<close>

datatype cclass = Dot | Word | Digit | NotChar char

fun in_class :: "cclass \<Rightarrow> char \<Rightarrow> bool" where
  "in_class Dot c = (c \<noteq> CHR 0x0A \<and> c \<noteq> CHR 0x0D)"
| "in_class Word c = (c \<in> set lower_letters \<or> c \<in> set upper_letters \<or> c \<in> set digits \<or> c = CHR ''_'')"
| "in_class Digit c = (c \<in> set digits)"
| "in_class (NotChar x) c = (c \<noteq> x)"

text \<open>
  The pattern syntax the source uses: a literal text, one character of a class, \<open>c+\<close>
  and \<open>c*\<close> over a class, alternation, sequence, and a capturing group.
\<close>

datatype rx =
    Lit string
  | Cls cclass
  | Plus cclass
  | Star cclass
  | Alt rx rx
  | Seq rx rx
  | Grp rx

text \<open>
  With the \<open>i\<close> flag two characters match when their canonical (upper case) forms agree.
  The patterns' literals are ASCII, and ECMAScript never canonicalises a character beyond
  ASCII to an ASCII one, so folding the ASCII letters is all the flag does here.
\<close>

definition canonicalize :: "bool \<Rightarrow> char \<Rightarrow> char" where
  "canonicalize ignoreCase c =
     (if ignoreCase then
        (case map_of (zip lower_letters upper_letters) c of Some u \<Rightarrow> u | None \<Rightarrow> c)
      else c)"

definition lit_prefix :: "bool \<Rightarrow> string \<Rightarrow> string \<Rightarrow> bool" where
  "lit_prefix ignoreCase w s =
     (length w \<le> length s \<and>
      map (canonicalize ignoreCase) w = map (canonicalize ignoreCase) (take (length w) s))"

text \<open>
  \<open>rx_run ic r s caps\<close> lists, in the order a backtracking matcher tries them, the ways
  \<open>r\<close> matches a prefix of \<open>s\<close>: each with the rest of the input and the captures so far.
\<close>

fun rx_run :: "bool \<Rightarrow> rx \<Rightarrow> string \<Rightarrow> string list \<Rightarrow> (string \<times> string list) list" where
  "rx_run ic (Lit w) s caps = (if lit_prefix ic w s then [(drop (length w) s, caps)] else [])"
| "rx_run ic (Cls c) s caps =
     (case s of [] \<Rightarrow> [] | x # xs \<Rightarrow> if in_class c x then [(xs, caps)] else [])"
| "rx_run ic (Plus c) s caps =
     map (\<lambda>k. (drop k s, caps)) (rev [1..<Suc (length (takeWhile (in_class c) s))])"
| "rx_run ic (Star c) s caps =
     map (\<lambda>k. (drop k s, caps)) (rev [0..<Suc (length (takeWhile (in_class c) s))])"
| "rx_run ic (Alt a b) s caps = rx_run ic a s caps @ rx_run ic b s caps"
| "rx_run ic (Seq a b) s caps =
     concat (map (\<lambda>(s', caps'). rx_run ic b s' caps') (rx_run ic a s caps))"
| "rx_run ic (Grp a) s caps =
     map (\<lambda>(s', caps'). (s', caps' @ [take (length s - length s') s])) (rx_run ic a s caps)"

text \<open>
  A compiled pattern: its syntax and its \<open>i\<close> flag. \<open>rx_at\<close> is the match starting at the
  head of the input, if there is one: the matched text, the rest, the captures.
\<close>

record regexp =
  source :: rx
  ignoreCase :: bool

definition rx_at :: "regexp \<Rightarrow> string \<Rightarrow> (string \<times> string \<times> string list) option" where
  "rx_at re s =
     (case rx_run (ignoreCase re) (source re) s [] of
        [] \<Rightarrow> None
      | (rest, caps) # _ \<Rightarrow> Some (take (length s - length rest) s, rest, caps))"

text \<open>
  \<open>String.prototype.match\<close> with a pattern without the \<open>g\<close> flag: the leftmost match, as
  the array of the matched text and the captures, or \<open>null\<close> (\<open>None\<close>).
\<close>

fun str_match :: "regexp \<Rightarrow> string \<Rightarrow> string list option" where
  "str_match re [] =
     (case rx_at re [] of Some (whole, rest, caps) \<Rightarrow> Some (whole # caps) | None \<Rightarrow> None)"
| "str_match re (c # cs) =
     (case rx_at re (c # cs) of
        Some (whole, rest, caps) \<Rightarrow> Some (whole # caps)
      | None \<Rightarrow> str_match re cs)"

text \<open>
  \<open>String.prototype.replace\<close> with a pattern with the \<open>g\<close> flag and a replacement text
  without \<open>$\<close>: every match, leftmost first and not overlapping, is replaced; after an
  empty match the scan moves one character on.
\<close>

function str_replace_all :: "regexp \<Rightarrow> string \<Rightarrow> string \<Rightarrow> string" where
  "str_replace_all re rep s =
     (case rx_at re s of
        None \<Rightarrow> (case s of [] \<Rightarrow> [] | c # cs \<Rightarrow> c # str_replace_all re rep cs)
      | Some (whole, rest, caps) \<Rightarrow>
          if length rest < length s then rep @ str_replace_all re rep rest
          else (case s of [] \<Rightarrow> rep | c # cs \<Rightarrow> rep @ c # str_replace_all re rep cs))"
  by pat_completeness auto
termination
  by (relation "measure (\<lambda>(re, rep, s). length s)") auto

declare str_replace_all.simps [simp del]


text \<open>
  \<open>Array.prototype.sort\<close> with a comparison callback: the sort is stable, and \<open>a\<close> is
  placed after \<open>b\<close> exactly when the callback's number for \<open>(a, b)\<close> is positive.
\<close>

fun sort_insert :: "('a \<Rightarrow> 'a \<Rightarrow> rat) \<Rightarrow> 'a \<Rightarrow> 'a list \<Rightarrow> 'a list" where
  "sort_insert cmp x [] = [x]"
| "sort_insert cmp x (y # ys) =
     (if cmp x y > 0 then y # sort_insert cmp x ys else x # y # ys)"

definition js_sort :: "('a \<Rightarrow> 'a \<Rightarrow> rat) \<Rightarrow> 'a list \<Rightarrow> 'a list" where
  "js_sort cmp xs = foldr (sort_insert cmp) xs []"

text \<open>A number in a template literal: its decimal digits.\<close>

fun show_nat :: "nat \<Rightarrow> string" where
  "show_nat n = (if n < 10 then [digits ! n] else show_nat (n div 10) @ [digits ! (n mod 10)])"

declare show_nat.simps [simp del]

subsection \<open>The MD5 digest\<close>

text \<open>
  \<open>crypto.createHash('md5').update(s).digest('hex')\<close> of Node: the MD5 digest (RFC 1321)
  of the text's bytes, in lower-case hexadecimal. A 32-bit word is an \<open>int\<close> kept below
  \<open>2 ^ 32\<close> by \<open>w32\<close>.
\<close>

unbundle bit_operations_syntax

definition md5_K :: "int list" where
  "md5_K =
     [0xd76aa478, 0xe8c7b756, 0x242070db, 0xc1bdceee, 0xf57c0faf, 0x4787c62a, 0xa8304613,
      0xfd469501, 0x698098d8, 0x8b44f7af, 0xffff5bb1, 0x895cd7be, 0x6b901122, 0xfd987193,
      0xa679438e, 0x49b40821, 0xf61e2562, 0xc040b340, 0x265e5a51, 0xe9b6c7aa, 0xd62f105d,
      0x02441453, 0xd8a1e681, 0xe7d3fbc8, 0x21e1cde6, 0xc33707d6, 0xf4d50d87, 0x455a14ed,
      0xa9e3e905, 0xfcefa3f8, 0x676f02d9, 0x8d2a4c8a, 0xfffa3942, 0x8771f681, 0x6d9d6122,
      0xfde5380c, 0xa4beea44, 0x4bdecfa9, 0xf6bb4b60, 0xbebfbc70, 0x289b7ec6, 0xeaa127fa,
      0xd4ef3085, 0x04881d05, 0xd9d4d039, 0xe6db99e5, 0x1fa27cf8, 0xc4ac5665, 0xf4292244,
      0x432aff97, 0xab9423a7, 0xfc93a039, 0x655b59c3, 0x8f0ccc92, 0xffeff47d, 0x85845dd1,
      0x6fa87e4f, 0xfe2ce6e0, 0xa3014314, 0x4e0811a1, 0xf7537e82, 0xbd3af235, 0x2ad7d2bb,
      0xeb86d391]"

definition md5_s :: "nat list" where
  "md5_s =
     [7, 12, 17, 22, 7, 12, 17, 22, 7, 12, 17, 22, 7, 12, 17, 22,
      5, 9, 14, 20, 5, 9, 14, 20, 5, 9, 14, 20, 5, 9, 14, 20,
      4, 11, 16, 23, 4, 11, 16, 23, 4, 11, 16, 23, 4, 11, 16, 23,
      6, 10, 15, 21, 6, 10, 15, 21, 6, 10, 15, 21, 6, 10, 15, 21]"

type_synonym md5_state = "int \<times> int \<times> int \<times> int"

fun le_bytes :: "nat \<Rightarrow> int \<Rightarrow> int list" where
  "le_bytes 0 v = []"
| "le_bytes (Suc k) v = (v mod 256) # le_bytes k (v div 256)"

definition md5_pad :: "int list \<Rightarrow> int list" where
  "md5_pad bs =
     bs @ [128] @ replicate ((119 - length bs mod 64) mod 64) 0
       @ le_bytes 8 (8 * int (length bs))"

fun le_word :: "int list \<Rightarrow> int" where
  "le_word [] = 0"
| "le_word (b # bs) = b + 256 * le_word bs"

definition md5_words :: "int list \<Rightarrow> int list" where
  "md5_words block = map (\<lambda>i. le_word (take 4 (drop (4 * i) block))) [0..<16]"

definition w32 :: "int \<Rightarrow> int" where
  "w32 x = x mod 4294967296"

definition not32 :: "int \<Rightarrow> int" where
  "not32 x = 4294967295 - x"

definition rotl32 :: "nat \<Rightarrow> int \<Rightarrow> int" where
  "rotl32 n x = w32 (x * 2 ^ n) + x div 2 ^ (32 - n)"

definition md5_step :: "int list \<Rightarrow> md5_state \<Rightarrow> nat \<Rightarrow> md5_state" where
  "md5_step M st i =
     (case st of (A, B, C, D) \<Rightarrow>
        let F = (if i < 16 then (B AND C) OR (not32 B AND D)
                 else if i < 32 then (D AND B) OR (not32 D AND C)
                 else if i < 48 then B XOR C XOR D
                 else C XOR (B OR not32 D));
            g = (if i < 16 then i
                 else if i < 32 then (5 * i + 1) mod 16
                 else if i < 48 then (3 * i + 5) mod 16
                 else (7 * i) mod 16);
            F' = w32 (F + A + md5_K ! i + M ! g)
        in (D, w32 (B + rotl32 (md5_s ! i) F'), B, C))"

definition md5_block :: "md5_state \<Rightarrow> int list \<Rightarrow> md5_state" where
  "md5_block st block =
     (case st of (a0, b0, c0, d0) \<Rightarrow>
        (case foldl (md5_step (md5_words block)) st [0..<64] of
           (A, B, C, D) \<Rightarrow> (w32 (a0 + A), w32 (b0 + B), w32 (c0 + C), w32 (d0 + D))))"

function md5_blocks :: "md5_state \<Rightarrow> int list \<Rightarrow> md5_state" where
  "md5_blocks st bs =
     (if length bs < 64 then st else md5_blocks (md5_block st (take 64 bs)) (drop 64 bs))"
  by pat_completeness auto
termination
  by (relation "measure (\<lambda>(st, bs). length bs)") auto

definition hex_byte :: "int \<Rightarrow> string" where
  "hex_byte b = [''0123456789abcdef'' ! nat (b div 16), ''0123456789abcdef'' ! nat (b mod 16)]"

definition md5_hex :: "string \<Rightarrow> string" where
  "md5_hex s =
     (case md5_blocks (0x67452301, 0xefcdab89, 0x98badcfe, 0x10325476)
             (md5_pad (map of_char s)) of
        (a, b, c, d) \<Rightarrow>
          concat (map hex_byte (concat (map (le_bytes 4) [a, b, c, d]))))"

section \<open>The compact test record\<close>

text \<open>
  The object the adapters hand to the enhancers for one test: \<open>t\<close> the test's name, \<open>f\<close>
  its file (with an optional \<open>:line\<close>), \<open>e\<close> the error of a failure (\<open>null\<close> for a pass) with
  its \<open>type\<close> and \<open>msg\<close>, \<open>d\<close> the duration and \<open>stk\<close> the stack (here its JSON text). A
  property a JavaScript object may lack is an \<open>option\<close>.
\<close>

record error_info =
  type :: "string option"
  msg :: "string option"

record test_entry =
  t :: "string option"
  f :: "string option"
  e :: "error_info option"
  d :: "nat option"
  stk :: "string option"

datatype js_error = TypeError

section \<open>Root cause analysis (src/enhancements/root-cause-analyzer.js)\<close>

record scored =
  confidence :: rat

text \<open>
  A group of \<open>groupByPattern\<close>: the texts a matcher's \<open>analyze\<close> callback returns, the
  matcher's confidence and the failures it claimed. A root cause of \<open>analyze\<close> carries the
  same texts and confidence, the names of the tests and their number. (Its
  \<open>suspectedFiles\<close>, computed from the stacks of the group alone, is not modelled.)
\<close>

record cause = scored +
  pattern :: string
  evidence :: string
  suggestion :: string

record group = cause +
  failures :: "test_entry list"

record root_cause = cause +
  affectedTests :: "string option list"
  count :: nat

type_synonym match_result = "test_entry \<times> string list"

type_synonym analysis = "string \<times> string \<times> string"

record pattern_matcher = scored +
  name :: string
  regex :: regexp
  analyze_fn :: "match_result list \<Rightarrow> js_error + analysis"

definition sq :: string where
  "sq = [CHR 0x27]"

text \<open>An element of a match array in a template literal; a missing one prints as \<open>undefined\<close>.\<close>

definition cap :: "string list \<Rightarrow> nat \<Rightarrow> string" where
  "cap m i = (if i < length m then m ! i else ''undefined'')"

fun seqs :: "rx list \<Rightarrow> rx" where
  "seqs [] = Lit []"
| "seqs [r] = r"
| "seqs (r # rs) = Seq r (seqs rs)"

definition undefined_property_access :: pattern_matcher where
  "undefined_property_access =
     \<lparr>confidence = 95 / 100,
      name = ''undefined_property_access'',
      regex = \<lparr>source = seqs [Lit ''Cannot read propert'', Alt (Lit ''y'') (Lit ''ies''),
                 Lit ('' of undefined (reading '' @ sq), Grp (Plus Word), Lit (sq @ '')'')],
               ignoreCase = False\<rparr>,
      analyze_fn = (\<lambda>matches.
        case matches of
          [] \<Rightarrow> Inl TypeError
        | (x, m) # _ \<Rightarrow>
            let property = cap m 1 in
            Inr (''Accessing property '' @ sq @ property @ sq @ '' on undefined object'',
                 ''All '' @ show_nat (length matches) @ '' test(s) fail when accessing '' @ sq
                   @ ''.'' @ property @ sq,
                 ''Check if parent object exists before accessing '' @ sq @ ''.'' @ property
                   @ sq @ '', or verify the object structure returned by your code''))\<rparr>"

definition null_property_access :: pattern_matcher where
  "null_property_access =
     \<lparr>confidence = 95 / 100,
      name = ''null_property_access'',
      regex = \<lparr>source = seqs [Lit ''Cannot read propert'', Alt (Lit ''y'') (Lit ''ies''),
                 Lit ('' of null (reading '' @ sq), Grp (Plus Word), Lit (sq @ '')'')],
               ignoreCase = False\<rparr>,
      analyze_fn = (\<lambda>matches.
        case matches of
          [] \<Rightarrow> Inl TypeError
        | (x, m) # _ \<Rightarrow>
            let property = cap m 1 in
            Inr (''Accessing property '' @ sq @ property @ sq @ '' on null object'',
                 ''All '' @ show_nat (length matches) @ '' test(s) fail when accessing '' @ sq
                   @ ''.'' @ property @ sq @ '' on null'',
                 ''Add null check before accessing '' @ sq @ ''.'' @ property @ sq
                   @ '', or verify why the object is null''))\<rparr>"

definition type_mismatch :: pattern_matcher where
  "type_mismatch =
     \<lparr>confidence = 75 / 100,
      name = ''type_mismatch'',
      regex = \<lparr>source = seqs [Lit ''expected '', Plus Dot, Lit '' to '',
                 Alt (Lit ''be'') (Lit ''equal''), Lit '' '', Plus Dot],
               ignoreCase = True\<rparr>,
      analyze_fn = (\<lambda>matches.
        Inr (''Type or value mismatch in assertions'',
             show_nat (length matches) @ '' test(s) have unexpected return values or types'',
             ''API or function may have changed - verify return types and values match test expectations''))\<rparr>"

definition array_length :: pattern_matcher where
  "array_length =
     \<lparr>confidence = 90 / 100,
      name = ''array_length'',
      regex = \<lparr>source = seqs [Lit ''expected '', Plus Dot, Lit '' to have a length of '',
                 Grp (Plus Digit), Lit '' but got '', Grp (Plus Digit)],
               ignoreCase = True\<rparr>,
      analyze_fn = (\<lambda>matches.
        case matches of
          [] \<Rightarrow> Inl TypeError
        | (x, first) # _ \<Rightarrow>
            Inr (''Array length mismatch (expected '' @ cap first 1 @ '', got '' @ cap first 2
                   @ '')'',
                 show_nat (length matches) @ '' test(s) have arrays with unexpected lengths'',
                 ''Data structure may have changed - check if items are being added, removed, or filtered unexpectedly''))\<rparr>"

definition assertion_error :: pattern_matcher where
  "assertion_error =
     \<lparr>confidence = 60 / 100,
      name = ''assertion_error'',
      regex = \<lparr>source = Lit ''AssertionError'', ignoreCase = True\<rparr>,
      analyze_fn = (\<lambda>matches.
        Inr (''General assertion failures'',
             show_nat (length matches) @ '' test(s) failed assertions'',
             ''Review test expectations and actual behavior - values or behavior may have changed''))\<rparr>"

definition timeout :: pattern_matcher where
  "timeout =
     \<lparr>confidence = 85 / 100,
      name = ''timeout'',
      regex = \<lparr>source = Alt (Lit ''timeout'') (Lit ''timed out''), ignoreCase = True\<rparr>,
      analyze_fn = (\<lambda>matches.
        Inr (''Test timeout errors'',
             show_nat (length matches) @ '' test(s) exceeded time limit'',
             ''Async operations may not be completing - check for missing awaits, infinite loops, or performance issues''))\<rparr>"

definition not_a_function :: pattern_matcher where
  "not_a_function =
     \<lparr>confidence = 95 / 100,
      name = ''not_a_function'',
      regex = \<lparr>source = seqs [Grp (Plus Dot), Lit '' is not a function''],
               ignoreCase = False\<rparr>,
      analyze_fn = (\<lambda>matches.
        case matches of
          [] \<Rightarrow> Inl TypeError
        | (x, m) # _ \<Rightarrow>
            Inr (sq @ cap m 1 @ sq @ '' is not a function'',
                 show_nat (length matches) @ '' test(s) trying to call a non-function'',
                 ''Check for typos, missing imports, or incorrect object destructuring''))\<rparr>"

definition undefined_reference :: pattern_matcher where
  "undefined_reference =
     \<lparr>confidence = 95 / 100,
      name = ''undefined_reference'',
      regex = \<lparr>source = seqs [Grp (Plus Dot), Lit '' is not defined''],
               ignoreCase = False\<rparr>,
      analyze_fn = (\<lambda>matches.
        case matches of
          [] \<Rightarrow> Inl TypeError
        | (x, m) # _ \<Rightarrow>
            Inr (sq @ cap m 1 @ sq @ '' is not defined'',
                 show_nat (length matches) @ '' test(s) reference undefined variable'',
                 ''Check for missing imports, typos in variable names, or scope issues''))\<rparr>"

definition getPatternMatchers :: "pattern_matcher list" where
  "getPatternMatchers =
     [undefined_property_access, null_property_access, type_mismatch, array_length,
      assertion_error, timeout, not_a_function, undefined_reference]"

text \<open>
  The analyzer's options and its constructor: \<open>options.minGroupSize || 2\<close> takes the
  default for a missing and for a zero value alike.
\<close>

record analyzer_options =
  opt_minGroupSize :: "nat option"
  opt_maxSuggestions :: "nat option"

record analyzer =
  minGroupSize :: nat
  maxSuggestions :: nat

definition or_default :: "nat option \<Rightarrow> nat \<Rightarrow> nat" where
  "or_default v dflt = (case v of None \<Rightarrow> dflt | Some n \<Rightarrow> if n = 0 then dflt else n)"

definition RootCauseAnalyzer :: "analyzer_options \<Rightarrow> analyzer" where
  "RootCauseAnalyzer options =
     \<lparr>minGroupSize = or_default (opt_minGroupSize options) 2,
      maxSuggestions = or_default (opt_maxSuggestions options) 5\<rparr>"

text \<open>
  \<open>f.e?.msg ? f.e.msg.match(pattern.regex) : null\<close>: a failure without an error, without a
  message or with the empty message matches no pattern.
\<close>

definition match_failure :: "pattern_matcher \<Rightarrow> test_entry \<Rightarrow> string list option" where
  "match_failure p x =
     (case e x of
        None \<Rightarrow> None
      | Some err \<Rightarrow>
          (case msg err of
             None \<Rightarrow> None
           | Some m \<Rightarrow> if m = [] then None else str_match (regex p) m))"

text \<open>
  The matches of one pattern among the failures not yet in \<open>matched\<close>. The source keeps
  \<open>matched\<close> as a set of object references; the model compares the records, which claims
  the same failures: two failures with equal records match the same patterns and so are
  claimed together.
\<close>

definition pattern_matches ::
  "pattern_matcher \<Rightarrow> test_entry list \<Rightarrow> test_entry list \<Rightarrow> match_result list" where
  "pattern_matches p matched fs =
     map (\<lambda>(x, r). (x, the r))
       (filter (\<lambda>(x, r). r \<noteq> None)
          (map (\<lambda>x. (x, match_failure p x)) (filter (\<lambda>x. x \<notin> set matched) fs)))"

text \<open>The loop of \<open>groupByPattern\<close> over the patterns, with its two accumulators.\<close>

fun try_patterns ::
  "nat \<Rightarrow> test_entry list \<Rightarrow> pattern_matcher list \<Rightarrow> group list \<Rightarrow> test_entry list
     \<Rightarrow> js_error + (group list \<times> test_entry list)" where
  "try_patterns mgs fs [] groups matched = Inr (groups, matched)"
| "try_patterns mgs fs (p # ps) groups matched =
     (let matches = pattern_matches p matched fs in
      if length matches \<ge> mgs then
        (case analyze_fn p matches of
           Inl err \<Rightarrow> Inl err
         | Inr (pat, ev, sug) \<Rightarrow>
             try_patterns mgs fs ps
               (groups @ [\<lparr>confidence = confidence p, pattern = pat, evidence = ev,
                           suggestion = sug, failures = map fst matches\<rparr>])
               (matched @ map fst matches))
      else try_patterns mgs fs ps groups matched)"

definition groupByPattern :: "analyzer \<Rightarrow> test_entry list \<Rightarrow> js_error + group list" where
  "groupByPattern a fs =
     (case try_patterns (minGroupSize a) fs getPatternMatchers [] [] of
        Inl err \<Rightarrow> Inl err
      | Inr (groups, matched) \<Rightarrow>
          let ungrouped = filter (\<lambda>x. x \<notin> set matched) fs in
          if length ungrouped > 0 then
            Inr (groups @ [\<lparr>confidence = 3 / 10, pattern = ''Various unrelated errors'',
                             evidence = show_nat (length ungrouped)
                               @ '' test(s) with different error patterns'',
                             suggestion = ''Review each failure individually'',
                             failures = ungrouped\<rparr>])
          else Inr groups)"

definition to_root_cause :: "group \<Rightarrow> root_cause" where
  "to_root_cause g =
     \<lparr>confidence = confidence g, pattern = pattern g, evidence = evidence g,
      suggestion = suggestion g, affectedTests = map t (failures g),
      count = length (failures g)\<rparr>"

definition analyze :: "analyzer \<Rightarrow> test_entry list \<Rightarrow> js_error + root_cause list" where
  "analyze a fs =
     (if fs = [] then Inr []
      else
        (case groupByPattern a fs of
           Inl err \<Rightarrow> Inl err
         | Inr groups \<Rightarrow>
             Inr (js_sort (\<lambda>x y. confidence y - confidence x) (map to_root_cause groups))))"


section \<open>The persistent index (PersistentIndex, class of the persistent-index module)\<close>

subsection \<open>The database\<close>

text \<open>
  The two tables of \<open>setupSchema\<close>. A row of \<open>runs\<close>: \<open>id'\<close> is the column \<open>id\<close>, \<open>timestamp\<close> a
  text, \<open>metadata\<close> the value whose JSON text the column holds. A row of \<open>results\<close> (\<open>file'\<close> is its column \<open>file\<close>) starts
  with the two columns \<open>findSimilarFailures\<close> groups by; \<open>result_id\<close> is its column \<open>id\<close>.
  A column that may hold \<open>NULL\<close> is an \<open>option\<close>.
\<close>

record run_metadata =
  framework :: "string option"
  dur :: "nat option"

record run_row =
  id' :: nat
  timestamp :: string
  git_hash :: "string option"
  git_branch :: "string option"
  total_tests :: nat
  passed :: nat
  failed :: nat
  duration_ms :: nat
  metadata :: run_metadata

record test_key =
  test_name :: string
  file' :: string

record result_row = test_key +
  result_id :: nat
  run_id :: nat
  status :: string
  result_duration_ms :: nat
  error_type :: "string option"
  error_message :: "string option"
  error_hash :: "string option"
  stack_trace :: "string option"

text \<open>
  The database file: the rows of the two tables in insertion order, the largest id each
  \<open>AUTOINCREMENT\<close> column has given out, and whether the connection enforces the
  \<open>FOREIGN KEY\<close> clause of \<open>results\<close> (SQLite's \<open>foreign_keys\<close> setting).
\<close>

record database =
  runs :: "run_row list"
  results :: "result_row list"
  runs_seq :: nat
  results_seq :: nat
  foreign_keys :: bool

datatype sql_error = NotNullConstraint | ForeignKeyConstraint

text \<open>SQLite compares two texts byte by byte, a proper prefix being the smaller.\<close>

fun text_less :: "string \<Rightarrow> string \<Rightarrow> bool" where
  "text_less [] [] = False"
| "text_less [] (y # ys) = True"
| "text_less (x # xs) [] = False"
| "text_less (x # xs) (y # ys) =
     ((of_char x :: nat) < of_char y \<or> (x = y \<and> text_less xs ys))"

text \<open>
  \<open>ORDER BY key DESC\<close>: a stable sort in which a row goes after every row with a larger
  key (SQL leaves the order of rows with equal keys open).
\<close>

fun order_insert :: "('a \<Rightarrow> 'a \<Rightarrow> bool) \<Rightarrow> 'a \<Rightarrow> 'a list \<Rightarrow> 'a list" where
  "order_insert after x [] = [x]"
| "order_insert after x (y # ys) =
     (if after x y then y # order_insert after x ys else x # y # ys)"

definition order_by :: "('a \<Rightarrow> 'a \<Rightarrow> bool) \<Rightarrow> 'a list \<Rightarrow> 'a list" where
  "order_by after xs = foldr (order_insert after) xs []"

text \<open>\<open>FROM results r JOIN runs ON r.run_id = runs.id\<close>.\<close>

definition join_runs :: "database \<Rightarrow> (result_row \<times> run_row) list" where
  "join_runs dbs =
     concat (map (\<lambda>r. map (\<lambda>run. (r, run)) (filter (\<lambda>run. run_id r = id' run) (runs dbs)))
       (results dbs))"

subsection \<open>The world outside the class\<close>

text \<open>
  What one call reads from its surroundings: whether the optional module
  \<open>better-sqlite3\<close> can be imported; the database that opening the file gives (\<open>None\<close>
  when creating the directory, opening the file or setting up the schema throws); the
  text \<open>new Date().toISOString()\<close> returns; the text SQLite's
  \<open>datetime('now', '-' || N || ' days')\<close> evaluates to; and the two outputs of \<open>git\<close>
  (\<open>None\<close> when \<open>execSync\<close> throws). The two \<open>DELETE\<close> statements of \<open>cleanup\<close> run one right
  after the other and read the same \<open>datetime\<close> text.
\<close>

record env =
  better_sqlite3 :: bool
  open_database :: "database option"
  toISOString :: string
  datetime_minus_days :: "nat \<Rightarrow> string"
  git_rev_parse :: "(string \<times> string) option"

subsection \<open>hashError\<close>

definition re_line_col :: regexp where
  "re_line_col =
     \<lparr>source = seqs [Lit '':'', Plus Digit, Lit '':'', Plus Digit], ignoreCase = False\<rparr>"

definition re_number :: regexp where
  "re_number = \<lparr>source = Plus Digit, ignoreCase = False\<rparr>"

definition re_quoted :: "char \<Rightarrow> regexp" where
  "re_quoted q = \<lparr>source = seqs [Lit [q], Star (NotChar q), Lit [q]], ignoreCase = False\<rparr>"

text \<open>The five \<open>replace\<close> calls of \<open>hashError\<close>, in the order of the source.\<close>

definition replace_line_col :: "string \<Rightarrow> string" where
  "replace_line_col s = str_replace_all re_line_col '':X:X'' s"

definition replace_numbers :: "string \<Rightarrow> string" where
  "replace_numbers s = str_replace_all re_number ''N'' s"

definition replace_quoted :: "char \<Rightarrow> string \<Rightarrow> string" where
  "replace_quoted q s = str_replace_all (re_quoted q) ''STR'' s"

definition normalize_msg :: "string \<Rightarrow> string" where
  "normalize_msg m =
     replace_quoted (CHR 0x60)
       (replace_quoted (CHR 0x22)
          (replace_quoted (CHR 0x27)
             (replace_numbers (replace_line_col m))))"

definition hashError :: "error_info option \<Rightarrow> string option" where
  "hashError error =
     (case error of
        None \<Rightarrow> None
      | Some err \<Rightarrow>
          (case msg err of
             None \<Rightarrow> None
           | Some m \<Rightarrow> if m = [] then None else Some (md5_hex (normalize_msg m))))"

subsection \<open>The index and its initialisation\<close>

record index_options =
  opt_enabled :: "bool option"
  opt_retentionDays :: "nat option"
  opt_trackGit :: "bool option"

record store =
  enabled :: bool
  retentionDays :: nat
  trackGit :: bool
  db :: "database option"
  initialized :: bool

definition PersistentIndex :: "index_options \<Rightarrow> store" where
  "PersistentIndex options =
     \<lparr>enabled = (opt_enabled options \<noteq> Some False),
      retentionDays = or_default (opt_retentionDays options) 30,
      trackGit = (opt_trackGit options \<noteq> Some False),
      db = None,
      initialized = False\<rparr>"

text \<open>
  \<open>cleanup\<close>: the first statement deletes the results of the runs whose timestamp text is
  smaller than the \<open>datetime\<close> text, the second those runs. With the foreign key enforced
  the second statement fails, and deletes nothing, when a result is left that refers to a
  run it would delete; the \<open>catch\<close> swallows the failure.
\<close>

definition delete_old_results :: "string \<Rightarrow> database \<Rightarrow> database" where
  "delete_old_results cutoff dbs =
     dbs\<lparr>results :=
       filter (\<lambda>r. run_id r \<notin> set (map id' (filter (\<lambda>run. text_less (timestamp run) cutoff) (runs dbs))))
         (results dbs)\<rparr>"

definition delete_old_runs :: "string \<Rightarrow> database \<Rightarrow> sql_error + database" where
  "delete_old_runs cutoff dbs =
     (if foreign_keys dbs \<and>
         list_ex (\<lambda>r. list_ex (\<lambda>run. id' run = run_id r \<and> text_less (timestamp run) cutoff) (runs dbs))
           (results dbs)
      then Inl ForeignKeyConstraint
      else Inr (dbs\<lparr>runs := filter (\<lambda>run. \<not> text_less (timestamp run) cutoff) (runs dbs)\<rparr>))"

definition cleanup :: "env \<Rightarrow> store \<Rightarrow> store" where
  "cleanup ev st =
     (case db st of
        None \<Rightarrow> st
      | Some dbs \<Rightarrow>
          if \<not> enabled st \<or> retentionDays st = 0 then st
          else
            let cutoff = datetime_minus_days ev (retentionDays st);
                dbs1 = delete_old_results cutoff dbs
            in (case delete_old_runs cutoff dbs1 of
                  Inl err \<Rightarrow> st\<lparr>db := Some dbs1\<rparr>
                | Inr dbs2 \<Rightarrow> st\<lparr>db := Some dbs2\<rparr>))"

text \<open>
  \<open>initialize\<close>, run by every operation before anything else. (The source shares one
  promise between callers that overlap; the model runs one call after the other.)
\<close>

definition initialize :: "env \<Rightarrow> store \<Rightarrow> store" where
  "initialize ev st =
     (if initialized st then st
      else if \<not> enabled st then st\<lparr>initialized := True\<rparr>
      else if \<not> better_sqlite3 ev then st\<lparr>enabled := False, initialized := True\<rparr>
      else
        (case open_database ev of
           None \<Rightarrow> st\<lparr>enabled := False, initialized := True\<rparr>
         | Some dbs \<Rightarrow> (cleanup ev (st\<lparr>db := Some dbs\<rparr>))\<lparr>initialized := True\<rparr>))"

subsection \<open>recordTestRun\<close>

text \<open>
  The summary an adapter extracts (\<open>tot\<close>, \<open>pas\<close>, \<open>fai\<close>, \<open>rate\<close>); \<open>ts\<close> stands for a timestamp
  a caller's summary may carry besides. \<open>recordTestRun\<close> returns the new run's id, or
  \<open>null\<close> (\<open>None\<close>).
\<close>

record summary =
  tot :: "nat option"
  pas :: "nat option"
  fai :: "nat option"
  rate :: "nat option"
  ts :: "string option"

definition getGitInfo :: "env \<Rightarrow> store \<Rightarrow> string option \<times> string option" where
  "getGitInfo ev st =
     (if \<not> trackGit st then (None, None)
      else (case git_rev_parse ev of
              None \<Rightarrow> (None, None)
            | Some (hash, branch) \<Rightarrow> (Some hash, Some branch)))"

definition recordTestRun :: "env \<Rightarrow> summary \<Rightarrow> run_metadata \<Rightarrow> store \<Rightarrow> nat option \<times> store" where
  "recordTestRun ev sm md st0 =
     (let st = initialize ev st0 in
      case db st of
        None \<Rightarrow> (None, st)
      | Some dbs \<Rightarrow>
          if \<not> enabled st then (None, st)
          else
            let gitInfo = getGitInfo ev st;
                lastInsertRowid = Suc (runs_seq dbs);
                row = \<lparr>id' = lastInsertRowid,
                       timestamp = toISOString ev,
                       git_hash = fst gitInfo,
                       git_branch = snd gitInfo,
                       total_tests = or_default (tot sm) 0,
                       passed = or_default (pas sm) 0,
                       failed = or_default (fai sm) 0,
                       duration_ms = or_default (dur md) 0,
                       metadata = md\<rparr>
            in (Some lastInsertRowid,
                st\<lparr>db := Some (dbs\<lparr>runs := runs dbs @ [row], runs_seq := lastInsertRowid\<rparr>)\<rparr>))"

subsection \<open>recordTestResults\<close>

definition or_null :: "string option \<Rightarrow> string option" where
  "or_null v = (case v of None \<Rightarrow> None | Some x \<Rightarrow> if x = [] then None else Some x)"

text \<open>\<open>test.f?.split(':')[0] || 'unknown'\<close>.\<close>

definition file_of :: "test_entry \<Rightarrow> string" where
  "file_of x =
     (case f x of
        None \<Rightarrow> ''unknown''
      | Some p \<Rightarrow> if takeWhile (\<lambda>c. c \<noteq> CHR '':'') p = [] then ''unknown''
                  else takeWhile (\<lambda>c. c \<noteq> CHR '':'') p)"

text \<open>
  One \<open>insert.run\<close>: the statement fails on a \<open>NULL\<close> in the \<open>NOT NULL\<close> column \<open>test_name\<close>
  (a test without a name) and, with the foreign key enforced, on a run id that no row of
  \<open>runs\<close> has.
\<close>

definition insert_result :: "nat \<Rightarrow> database \<Rightarrow> test_entry \<Rightarrow> sql_error + database" where
  "insert_result runId dbs x =
     (let errorHash = (case e x of None \<Rightarrow> None | Some err \<Rightarrow> hashError (Some err));
          stackTrace = stk x
      in case t x of
           None \<Rightarrow> Inl NotNullConstraint
         | Some nm \<Rightarrow>
             if foreign_keys dbs \<and> runId \<notin> set (map id' (runs dbs)) then Inl ForeignKeyConstraint
             else
               Inr (dbs\<lparr>results := results dbs @
                      [\<lparr>test_name = nm,
                        file' = file_of x,
                        result_id = Suc (results_seq dbs),
                        run_id = runId,
                        status = (case e x of None \<Rightarrow> ''pass'' | Some err \<Rightarrow> ''fail''),
                        result_duration_ms = or_default (d x) 0,
                        error_type = (case e x of None \<Rightarrow> None | Some err \<Rightarrow> or_null (type err)),
                        error_message = (case e x of None \<Rightarrow> None | Some err \<Rightarrow> or_null (msg err)),
                        error_hash = errorHash,
                        stack_trace = stackTrace\<rparr>],
                    results_seq := Suc (results_seq dbs)\<rparr>))"

text \<open>
  The loop of \<open>insertMany\<close>: the first failing statement throws out of it, and the rows
  that the statements before it have written are in the database at that moment. The
  result is what is thrown, if anything, and the database the connection holds then.
\<close>

fun insertMany :: "nat \<Rightarrow> database \<Rightarrow> test_entry list \<Rightarrow> sql_error option \<times> database" where
  "insertMany runId dbs [] = (None, dbs)"
| "insertMany runId dbs (x # xs) =
     (case insert_result runId dbs x of
        Inl err \<Rightarrow> (Some err, dbs)
      | Inr dbs' \<Rightarrow> insertMany runId dbs' xs)"

text \<open>
  A connection: the database as the statements see it and, while a transaction is open,
  the database as it was at \<open>BEGIN\<close>, which \<open>ROLLBACK\<close> puts back (the two tables and the
  \<open>AUTOINCREMENT\<close> counters, which SQLite keeps in a table of their own).
\<close>

record connection =
  current :: database
  journal :: "database option"

definition sql_begin :: "connection \<Rightarrow> connection" where
  "sql_begin c = c\<lparr>journal := Some (current c)\<rparr>"

definition sql_commit :: "connection \<Rightarrow> connection" where
  "sql_commit c = c\<lparr>journal := None\<rparr>"

definition sql_rollback :: "connection \<Rightarrow> connection" where
  "sql_rollback c =
     (case journal c of None \<Rightarrow> c | Some old \<Rightarrow> \<lparr>current = old, journal = None\<rparr>)"

text \<open>
  \<open>db.transaction(fn)\<close> of better-sqlite3: \<open>BEGIN\<close>, the body, \<open>COMMIT\<close>; when the body
  throws, \<open>ROLLBACK\<close>, and the error is thrown on.
\<close>

definition transaction ::
  "(database \<Rightarrow> sql_error option \<times> database) \<Rightarrow> database \<Rightarrow> sql_error option \<times> database" where
  "transaction body dbs =
     (let c0 = sql_begin \<lparr>current = dbs, journal = None\<rparr>;
          (thrown, dbs') = body (current c0);
          c1 = c0\<lparr>current := dbs'\<rparr>
      in case thrown of
           None \<Rightarrow> (None, current (sql_commit c1))
         | Some err \<Rightarrow> (Some err, current (sql_rollback c1)))"

text \<open>
  \<open>recordTestResults\<close>: the index after the call. The \<open>catch\<close> swallows what the
  transaction throws, and the index goes on with the database the connection holds.
\<close>

definition recordTestResults :: "env \<Rightarrow> nat option \<Rightarrow> test_entry list \<Rightarrow> store \<Rightarrow> store" where
  "recordTestResults ev runId tests st0 =
     (let st = initialize ev st0 in
      case db st of
        None \<Rightarrow> st
      | Some dbs \<Rightarrow>
          (case runId of
             None \<Rightarrow> st
           | Some rid \<Rightarrow>
               if \<not> enabled st \<or> rid = 0 then st
               else
                 (case transaction (\<lambda>dbs'. insertMany rid dbs' tests) dbs of
                    (thrown, dbs') \<Rightarrow> st\<lparr>db := Some dbs'\<rparr>)))"

text \<open>
  The value the promise of \<open>recordTestResults\<close> resolves to: \<open>undefined\<close> on every path,
  the two \<open>return;\<close> of the guard, the end of the \<open>try\<close> block and the end of the \<open>catch\<close>
  block. (\<open>recordTestRun\<close> resolves to a number or to \<open>null\<close>.)
\<close>

datatype js_value = Undefined | Null | Number nat

definition recordTestResults_returns ::
  "env \<Rightarrow> nat option \<Rightarrow> test_entry list \<Rightarrow> store \<Rightarrow> js_value" where
  "recordTestResults_returns ev runId tests st0 =
     (let st = initialize ev st0 in
      case db st of
        None \<Rightarrow> Undefined
      | Some dbs \<Rightarrow>
          (case runId of
             None \<Rightarrow> Undefined
           | Some rid \<Rightarrow>
               if \<not> enabled st \<or> rid = 0 then Undefined
               else
                 (case transaction (\<lambda>dbs'. insertMany rid dbs' tests) dbs of
                    (None, dbs') \<Rightarrow> Undefined
                  | (Some err, dbs') \<Rightarrow> Undefined)))"

subsection \<open>The queries\<close>

text \<open>
  A row of \<open>getTestHistory\<close> is the result's row with its run's \<open>timestamp\<close>, \<open>git_hash\<close> and
  \<open>git_branch\<close>.
\<close>

definition getTestHistory ::
  "env \<Rightarrow> string \<Rightarrow> nat \<Rightarrow> store
     \<Rightarrow> (result_row \<times> string \<times> string option \<times> string option) list \<times> store" where
  "getTestHistory ev testName limit st0 =
     (let st = initialize ev st0 in
      case db st of
        None \<Rightarrow> ([], st)
      | Some dbs \<Rightarrow>
          if \<not> enabled st then ([], st)
          else
            (map (\<lambda>(r, run). (r, timestamp run, git_hash run, git_branch run))
               (take limit
                  (order_by (\<lambda>a b. text_less (timestamp (snd a)) (timestamp (snd b)))
                     (filter (\<lambda>(r, run). test_name r = testName) (join_runs dbs)))),
             st))"

record similar_row = test_key +
  occurrences :: nat

definition similar_rows :: "database \<Rightarrow> string \<Rightarrow> similar_row list" where
  "similar_rows dbs h =
     (let rows = filter (\<lambda>r. error_hash r = Some h \<and> status r = ''fail'') (results dbs);
          keys = remdups (map (\<lambda>r. (test_name r, file' r)) rows);
          grouped = map (\<lambda>(nm, fl).
                      \<lparr>test_name = nm, file' = fl,
                       occurrences = length (filter (\<lambda>r. test_name r = nm \<and> file' r = fl) rows)\<rparr>)
                    keys
      in take 10 (order_by (\<lambda>a b. occurrences a < occurrences b) grouped))"

definition findSimilarFailures ::
  "env \<Rightarrow> string option \<Rightarrow> store \<Rightarrow> similar_row list \<times> store" where
  "findSimilarFailures ev errorHash st0 =
     (let st = initialize ev st0 in
      case db st of
        None \<Rightarrow> ([], st)
      | Some dbs \<Rightarrow>
          (case errorHash of
             None \<Rightarrow> ([], st)
           | Some h \<Rightarrow> if \<not> enabled st \<or> h = [] then ([], st) else (similar_rows dbs h, st)))"

text \<open>
  The arithmetic of \<open>passRate\<close> is on IEEE doubles. A double that is not negative is
  modelled by a ratio of two integers that denotes it: the counts are exact, and the
  quotient and the product are each rounded to the nearest double, ties to even
  (\<open>round_double\<close>, for a number in the normal range). \<open>toFixed(1)\<close> prints the tenth
  nearest to the double's exact value, the larger one of two.
\<close>

function bit_length :: "int \<Rightarrow> nat" where
  "bit_length n = (if n \<le> 0 then 0 else Suc (bit_length (n div 2)))"
  by pat_completeness auto
termination
  by (relation "measure nat") auto

declare bit_length.simps [simp del]

text \<open>
  \<open>round_double a b\<close> rounds \<open>a / b\<close> to 53 significant bits: \<open>ex\<close> is the exponent with
  \<open>2 ^ ex \<le> a / b < 2 ^ (ex + 1)\<close>, \<open>m\<close> and \<open>r\<close> the quotient scaled into
  \<open>2 ^ 52 ..< 2 ^ 53\<close> and what is left of it.
\<close>

definition round_double :: "int \<Rightarrow> int \<Rightarrow> int \<times> int" where
  "round_double a b =
     (if a \<le> 0 then (0, 1)
      else
        let e0 = int (bit_length a) - int (bit_length b);
            ex = (if a * 2 ^ nat (- e0) \<ge> b * 2 ^ nat e0 then e0 else e0 - 1);
            sh = 52 - ex;
            num = a * 2 ^ nat sh;
            den = b * 2 ^ nat (- sh);
            m = num div den;
            r = num mod den;
            m' = (if 2 * r > den \<or> (2 * r = den \<and> odd m) then m + 1 else m)
        in (m' * 2 ^ nat (- sh), 2 ^ nat sh))"

definition toFixed1 :: "int \<times> int \<Rightarrow> string" where
  "toFixed1 x =
     (case x of (a, b) \<Rightarrow>
        let n = (20 * a + b) div (2 * b)
        in show_nat (nat (n div 10)) @ ''.'' @ show_nat (nat (n mod 10)))"

text \<open>\<open>((passes / total_runs) * 100).toFixed(1)\<close>.\<close>

definition pass_rate :: "nat \<Rightarrow> nat \<Rightarrow> string" where
  "pass_rate n_passes total_runs =
     (case round_double (int n_passes) (int total_runs) of
        (a, b) \<Rightarrow> toFixed1 (round_double (a * 100) b))"

record flakiness =
  passRate :: string
  isFlaky :: bool
  totalRuns :: nat
  passes :: nat
  failures' :: nat

definition flakiness_rows :: "database \<Rightarrow> string \<Rightarrow> string \<Rightarrow> (result_row \<times> run_row) list" where
  "flakiness_rows dbs testName cutoff =
     filter (\<lambda>(r, run). test_name r = testName \<and> text_less cutoff (timestamp run)) (join_runs dbs)"

definition getFlakiness :: "env \<Rightarrow> string \<Rightarrow> nat \<Rightarrow> store \<Rightarrow> flakiness option \<times> store" where
  "getFlakiness ev testName windowDays st0 =
     (let st = initialize ev st0 in
      case db st of
        None \<Rightarrow> (None, st)
      | Some dbs \<Rightarrow>
          if \<not> enabled st then (None, st)
          else
            let rows = flakiness_rows dbs testName (datetime_minus_days ev windowDays);
                total_runs = length rows;
                n_passes = length (filter (\<lambda>(r, run). status r = ''pass'') rows);
                n_failures = length (filter (\<lambda>(r, run). status r = ''fail'') rows)
            in if total_runs = 0 then (None, st)
               else
                 (Some \<lparr>passRate = pass_rate n_passes total_runs,
                        isFlaky = (n_passes > 0 \<and> n_failures > 0),
                        totalRuns = total_runs,
                        passes = n_passes,
                        failures' = n_failures\<rparr>,
                  st))"

section \<open>Example inputs\<close>

text \<open>A failure with a name and a message, and nothing else.\<close>

definition failure_with :: "string \<Rightarrow> string \<Rightarrow> test_entry" where
  "failure_with nm m =
     \<lparr>t = Some nm, f = None, e = Some \<lparr>type = None, msg = Some m\<rparr>, d = None, stk = None\<rparr>"

definition default_analyzer :: analyzer where
  "default_analyzer = RootCauseAnalyzer \<lparr>opt_minGroupSize = None, opt_maxSuggestions = None\<rparr>"

text \<open>
  The world at one moment: the module is installed, the database file is new, \<open>reading\<close>
  is the clock's reading as \<open>toISOString\<close> prints it and \<open>cutoff\<close> maps a number of days to
  what SQLite's \<open>datetime\<close> prints for the clock's reading that many days earlier.
\<close>

definition empty_database :: database where
  "empty_database =
     \<lparr>runs = [], results = [], runs_seq = 0, results_seq = 0, foreign_keys = True\<rparr>"

definition world_at :: "string \<Rightarrow> (nat \<Rightarrow> string) \<Rightarrow> env" where
  "world_at reading cutoff =
     \<lparr>better_sqlite3 = True, open_database = Some empty_database, toISOString = reading,
      datetime_minus_days = cutoff, git_rev_parse = None\<rparr>"

definition no_summary :: summary where
  "no_summary = \<lparr>tot = None, pas = None, fai = None, rate = None, ts = None\<rparr>"

definition no_metadata :: run_metadata where
  "no_metadata = \<lparr>framework = None, dur = None\<rparr>"

definition pass_with :: "string \<Rightarrow> test_entry" where
  "pass_with nm = \<lparr>t = Some nm, f = None, e = None, d = None, stk = None\<rparr>"

definition default_index :: store where
  "default_index =
     PersistentIndex \<lparr>opt_enabled = None, opt_retentionDays = None, opt_trackGit = None\<rparr>"

text \<open>
  A database without the three counts that \<open>recordTestRun\<close> takes from the summary: what
  is left of a run is its id, its timestamp, the git data and the metadata.
\<close>

definition without_counts :: "database \<Rightarrow> database" where
  "without_counts dbs =
     dbs\<lparr>runs := map (\<lambda>run. run\<lparr>total_tests := 0, passed := 0, failed := 0\<rparr>) (runs dbs)\<rparr>"

text \<open>
  A history of two runs of the test \<open>t1\<close>, recorded through the index: it passed in a run
  recorded on 1 January 2025 at 00:00:01 UTC and failed in a run recorded on 8 January
  2025 at 11:00:00 UTC.
\<close>

definition two_runs :: store where
  "two_runs =
     recordTestResults
       (world_at ''2025-01-08T11:00:00.000Z'' (\<lambda>n. ''2024-12-09 11:00:00'')) (Some 2)
       [failure_with ''t1'' ''boom'']
       (snd (recordTestRun
          (world_at ''2025-01-08T11:00:00.000Z'' (\<lambda>n. ''2024-12-09 11:00:00''))
          no_summary no_metadata
          (recordTestResults
             (world_at ''2025-01-01T00:00:01.000Z'' (\<lambda>n. ''2024-12-02 00:00:01'')) (Some 1)
             [pass_with ''t1'']
             (snd (recordTestRun
                (world_at ''2025-01-01T00:00:01.000Z'' (\<lambda>n. ''2024-12-02 00:00:01''))
                no_summary no_metadata default_index)))))"

text \<open>
  \<open>getFlakiness('t1', 7)\<close> on 8 January 2025 at 12:00:00 UTC: seven days earlier is
  1 January at 12:00:00, and the first run is older than that.
\<close>

definition flakiness_on_8_january :: "flakiness option" where
  "flakiness_on_8_january =
     fst (getFlakiness
            (world_at ''2025-01-08T12:00:00.000Z'' (\<lambda>n. ''2025-01-01 12:00:00''))
            ''t1'' 7 two_runs)"

text \<open>
  \<open>cleanup()\<close> with the default retention of 30 days on 31 January 2025 at 12:00:00 UTC:
  thirty days earlier is 1 January at 12:00:00, and the first run is older than that.
\<close>

definition cleanup_on_31_january :: store where
  "cleanup_on_31_january =
     cleanup (world_at ''2025-01-31T12:00:00.000Z'' (\<lambda>n. ''2025-01-01 12:00:00'')) two_runs"

section \<open>Notions for the statements\<close>

text \<open>
  Two notions to state what \<open>hashError\<close> is blind to. The shape of a message: the message
  with every maximal run of digits replaced by one mark (\<open>None\<close>); two messages of the same
  shape differ only in the digits of their runs of digits. And a text without any of the
  three quote characters.
\<close>

function shape :: "string \<Rightarrow> char option list" where
  "shape [] = []"
| "shape (c # cs) =
     (if in_class Digit c then None # shape (dropWhile (in_class Digit) cs)
      else Some c # shape cs)"
  by pat_completeness auto
termination
  by (relation "measure length") (auto simp: length_dropWhile_le less_Suc_eq_le)



text \<open>The number of rows an answer of \<open>getFlakiness\<close> counts: none when it is \<open>null\<close>.\<close>

definition runs_counted :: "flakiness option \<Rightarrow> nat" where
  "runs_counted answer = (case answer of None \<Rightarrow> 0 | Some fl \<Rightarrow> totalRuns fl)"

section \<open>The root cause analysis: the groups partition the batch\<close>

lemma pattern_matches_fst:
  "map fst (pattern_matches p matched fs) =
     filter (\<lambda>x. x \<notin> set matched \<and> match_failure p x \<noteq> None) fs"
  unfolding pattern_matches_def by (induction fs) auto

lemma pattern_matches_length:
  "length (pattern_matches p matched fs) =
     length (filter (\<lambda>x. x \<notin> set matched \<and> match_failure p x \<noteq> None) fs)"
proof -
  have "length (pattern_matches p matched fs) = length (map fst (pattern_matches p matched fs))"
    by simp
  then show ?thesis by (simp only: pattern_matches_fst)
qed

lemma try_patterns_append:
  "try_patterns mgs fs (ps @ qs) groups matched =
     (case try_patterns mgs fs ps groups matched of
        Inl err \<Rightarrow> Inl err
      | Inr (groups', matched') \<Rightarrow> try_patterns mgs fs qs groups' matched')"
proof (induction ps arbitrary: groups matched)
  case Nil
  show ?case by simp
next
  case (Cons p ps)
  show ?case
    by (simp add: Cons.IH Let_def split: sum.split prod.split)
qed

lemma try_patterns_grows:
  "try_patterns mgs fs ps groups matched = Inr (groups', matched') \<Longrightarrow>
     \<exists>more. groups' = groups @ more"
proof (induction ps arbitrary: groups matched)
  case Nil
  then show ?case by simp
next
  case (Cons p ps)
  show ?case
  proof (cases "mgs \<le> length (pattern_matches p matched fs)")
    case False
    with Cons.prems have "try_patterns mgs fs ps groups matched = Inr (groups', matched')"
      by (simp add: Let_def)
    from Cons.IH [OF this] show ?thesis .
  next
    case True
    with Cons.prems obtain g ms where
      "try_patterns mgs fs ps (groups @ [g]) ms = Inr (groups', matched')"
      by (auto simp: Let_def split: sum.splits prod.splits)
    from Cons.IH [OF this] obtain more where "groups' = (groups @ [g]) @ more" ..
    then have "groups' = groups @ (g # more)" by simp
    then show ?thesis ..
  qed
qed

lemma try_patterns_once:
  "try_patterns mgs fs ps groups matched = Inr (groups', matched') \<Longrightarrow>
   (\<And>x. length (filter (\<lambda>g. x \<in> set (failures g)) groups) =
           (if x \<in> set fs \<and> x \<in> set matched then 1 else 0)) \<Longrightarrow>
   length (filter (\<lambda>g. x \<in> set (failures g)) groups') =
     (if x \<in> set fs \<and> x \<in> set matched' then 1 else 0)"
proof (induction ps arbitrary: groups matched)
  case Nil
  then show ?case by simp
next
  case (Cons p ps)
  show ?case
  proof (cases "mgs \<le> length (pattern_matches p matched fs)")
    case False
    with Cons.prems(1) have "try_patterns mgs fs ps groups matched = Inr (groups', matched')"
      by (simp add: Let_def)
    from Cons.IH [OF this Cons.prems(2)] show ?thesis .
  next
    case True
    with Cons.prems(1) obtain pat ev sug where
      run: "try_patterns mgs fs ps
              (groups @ [\<lparr>confidence = confidence p, pattern = pat, evidence = ev,
                 suggestion = sug, failures = map fst (pattern_matches p matched fs)\<rparr>])
              (matched @ map fst (pattern_matches p matched fs)) = Inr (groups', matched')"
      by (auto simp: Let_def split: sum.splits prod.splits)
    show ?thesis
    proof (rule Cons.IH [OF run])
      fix y
      show "length (filter (\<lambda>g. y \<in> set (failures g))
               (groups @ [\<lparr>confidence = confidence p, pattern = pat, evidence = ev,
                  suggestion = sug, failures = map fst (pattern_matches p matched fs)\<rparr>])) =
            (if y \<in> set fs \<and> y \<in> set (matched @ map fst (pattern_matches p matched fs))
             then 1 else 0)"
        using Cons.prems(2) [of y] by (auto simp: pattern_matches_fst)
    qed
  qed
qed

lemma try_patterns_counts:
  "try_patterns mgs fs ps groups matched = Inr (groups', matched') \<Longrightarrow>
   (\<And>x. sum_list (map (\<lambda>g. count_list (failures g) x) groups) =
           (if x \<in> set matched then count_list fs x else 0)) \<Longrightarrow>
   sum_list (map (\<lambda>g. count_list (failures g) x) groups') =
     (if x \<in> set matched' then count_list fs x else 0)"
proof (induction ps arbitrary: groups matched)
  case Nil
  then show ?case by simp
next
  case (Cons p ps)
  show ?case
  proof (cases "mgs \<le> length (pattern_matches p matched fs)")
    case False
    with Cons.prems(1) have "try_patterns mgs fs ps groups matched = Inr (groups', matched')"
      by (simp add: Let_def)
    from Cons.IH [OF this Cons.prems(2)] show ?thesis .
  next
    case True
    with Cons.prems(1) obtain pat ev sug where
      run: "try_patterns mgs fs ps
              (groups @ [\<lparr>confidence = confidence p, pattern = pat, evidence = ev,
                 suggestion = sug, failures = map fst (pattern_matches p matched fs)\<rparr>])
              (matched @ map fst (pattern_matches p matched fs)) = Inr (groups', matched')"
      by (auto simp: Let_def split: sum.splits prod.splits)
    have cnt: "count_list (filter P fs) y = (if P y then count_list fs y else 0)" for P y
      by (induction fs) auto
    show ?thesis
    proof (rule Cons.IH [OF run])
      fix y
      show "sum_list (map (\<lambda>g. count_list (failures g) y)
               (groups @ [\<lparr>confidence = confidence p, pattern = pat, evidence = ev,
                  suggestion = sug, failures = map fst (pattern_matches p matched fs)\<rparr>])) =
            (if y \<in> set (matched @ map fst (pattern_matches p matched fs))
             then count_list fs y else 0)"
        using Cons.prems(2) [of y] by (auto simp: pattern_matches_fst cnt count_list_0_iff)
    qed
  qed
qed

lemma length_filter_disj:
  "length (filter (\<lambda>x. P x \<or> (\<not> P x \<and> Q x)) xs) =
     length (filter P xs) + length (filter (\<lambda>x. \<not> P x \<and> Q x) xs)"
  by (induction xs) auto

lemma try_patterns_lengths:
  "try_patterns mgs fs ps groups matched = Inr (groups', matched') \<Longrightarrow>
   sum_list (map (\<lambda>g. length (failures g)) groups) =
     length (filter (\<lambda>x. x \<in> set matched) fs) \<Longrightarrow>
   sum_list (map (\<lambda>g. length (failures g)) groups') =
     length (filter (\<lambda>x. x \<in> set matched') fs)"
proof (induction ps arbitrary: groups matched)
  case Nil
  then show ?case by simp
next
  case (Cons p ps)
  show ?case
  proof (cases "mgs \<le> length (pattern_matches p matched fs)")
    case False
    with Cons.prems(1) have "try_patterns mgs fs ps groups matched = Inr (groups', matched')"
      by (simp add: Let_def)
    from Cons.IH [OF this Cons.prems(2)] show ?thesis .
  next
    case True
    with Cons.prems(1) obtain pat ev sug where
      run: "try_patterns mgs fs ps
              (groups @ [\<lparr>confidence = confidence p, pattern = pat, evidence = ev,
                 suggestion = sug, failures = map fst (pattern_matches p matched fs)\<rparr>])
              (matched @ map fst (pattern_matches p matched fs)) = Inr (groups', matched')"
      by (auto simp: Let_def split: sum.splits prod.splits)
    have "filter (\<lambda>x. x \<in> set (matched @ map fst (pattern_matches p matched fs))) fs =
          filter (\<lambda>x. x \<in> set matched \<or> (x \<notin> set matched \<and> match_failure p x \<noteq> None)) fs"
      by (rule filter_cong) (auto simp: pattern_matches_fst)
    then have "length (filter (\<lambda>x. x \<in> set (matched @ map fst (pattern_matches p matched fs))) fs) =
          length (filter (\<lambda>x. x \<in> set matched) fs) +
          length (filter (\<lambda>x. x \<notin> set matched \<and> match_failure p x \<noteq> None) fs)"
      by (simp add: length_filter_disj)
    with Cons.prems(2) show ?thesis
      by (intro Cons.IH [OF run]) (simp add: pattern_matches_fst)
  qed
qed

lemma analyze_fn_ok:
  "p \<in> set getPatternMatchers \<Longrightarrow> ms \<noteq> [] \<Longrightarrow> \<exists>a. analyze_fn p ms = Inr a"
  unfolding getPatternMatchers_def
  by (cases ms)
     (auto simp: undefined_property_access_def null_property_access_def type_mismatch_def
        array_length_def assertion_error_def timeout_def not_a_function_def
        undefined_reference_def Let_def split: prod.splits)

lemma try_patterns_ok:
  "0 < mgs \<Longrightarrow> set ps \<subseteq> set getPatternMatchers \<Longrightarrow>
     \<exists>r. try_patterns mgs fs ps groups matched = Inr r"
proof (induction ps arbitrary: groups matched)
  case Nil
  show ?case by simp
next
  case (Cons p ps)
  then have sub: "set ps \<subseteq> set getPatternMatchers" and mem: "p \<in> set getPatternMatchers"
    by auto
  show ?case
  proof (cases "mgs \<le> length (pattern_matches p matched fs)")
    case False
    then show ?thesis using Cons.IH [OF Cons.prems(1) sub] by (simp add: Let_def)
  next
    case True
    with Cons.prems(1) have "pattern_matches p matched fs \<noteq> []" by auto
    from analyze_fn_ok [OF mem this] obtain pat ev sug where
      "analyze_fn p (pattern_matches p matched fs) = Inr (pat, ev, sug)"
      by (metis prod_cases3)
    with True show ?thesis using Cons.IH [OF Cons.prems(1) sub] by (simp add: Let_def)
  qed
qed

lemma minGroupSize_pos: "0 < minGroupSize (RootCauseAnalyzer opts)"
  by (simp add: RootCauseAnalyzer_def or_default_def split: option.split)

lemma count_list_filter:
  "count_list (filter P xs) y = (if P y then count_list xs y else 0)"
  by (induction xs) auto

lemma length_filter_split:
  "length (filter P xs) + length (filter (\<lambda>x. \<not> P x) xs) = length xs"
  by (induction xs) auto

text \<open>What \<open>groupByPattern\<close> returns, from the run of its loop.\<close>

lemma groupByPattern_cases:
  assumes "try_patterns (minGroupSize a) fs getPatternMatchers [] [] = Inr (groups, matched)"
  shows "groupByPattern a fs =
           Inr (if filter (\<lambda>x. x \<notin> set matched) fs = [] then groups
                else groups @ [\<lparr>confidence = 3 / 10, pattern = ''Various unrelated errors'',
                   evidence = show_nat (length (filter (\<lambda>x. x \<notin> set matched) fs))
                     @ '' test(s) with different error patterns'',
                   suggestion = ''Review each failure individually'',
                   failures = filter (\<lambda>x. x \<notin> set matched) fs\<rparr>])"
  using assms by (simp add: groupByPattern_def Let_def)

lemma groupByPattern_partition:
  assumes pos: "0 < minGroupSize a"
  shows "\<exists>gs. groupByPattern a fs = Inr gs \<and>
           (\<forall>x. x \<in> set fs \<longrightarrow> length (filter (\<lambda>g. x \<in> set (failures g)) gs) = 1) \<and>
           (\<forall>x. sum_list (map (\<lambda>g. count_list (failures g) x) gs) = count_list fs x) \<and>
           sum_list (map (\<lambda>g. length (failures g)) gs) = length fs"
proof -
  from try_patterns_ok [OF pos subset_refl] obtain groups matched where
    run: "try_patterns (minGroupSize a) fs getPatternMatchers [] [] = Inr (groups, matched)"
    by (metis surj_pair)
  have once: "length (filter (\<lambda>g. x \<in> set (failures g)) groups) =
                (if x \<in> set fs \<and> x \<in> set matched then 1 else 0)" for x
    by (rule try_patterns_once [OF run]) simp
  have counts: "sum_list (map (\<lambda>g. count_list (failures g) x) groups) =
                  (if x \<in> set matched then count_list fs x else 0)" for x
    by (rule try_patterns_counts [OF run]) simp
  have lengths: "sum_list (map (\<lambda>g. length (failures g)) groups) =
                   length (filter (\<lambda>x. x \<in> set matched) fs)"
    by (rule try_patterns_lengths [OF run]) simp
  let ?un = "filter (\<lambda>x. x \<notin> set matched) fs"
  note res = groupByPattern_cases [OF run]
  show ?thesis
  proof (cases "?un = []")
    case True
    then have all: "\<And>x. x \<in> set fs \<Longrightarrow> x \<in> set matched"
      by (auto simp: filter_empty_conv)
    have "length (filter (\<lambda>x. x \<in> set matched) fs) = length fs"
      using length_filter_split [of "\<lambda>x. x \<in> set matched" fs] True by simp
    moreover have "(if x \<in> set matched then count_list fs x else 0) = count_list fs x" for x
      using all [of x] by (auto simp: count_list_0_iff)
    ultimately show ?thesis
      using res True once counts lengths all by auto
  next
    case False
    have l: "length (filter (\<lambda>x. x \<in> set matched) fs) + length ?un = length fs"
      by (rule length_filter_split)
    show ?thesis
      using res False once counts lengths l by (auto simp: count_list_filter)
  qed
qed

lemma sum_list_sort_insert:
  "sum_list (map h (sort_insert cmp x ys)) = (h x :: nat) + sum_list (map h ys)"
  by (induction ys) auto

lemma sum_list_js_sort: "sum_list (map h (js_sort cmp xs)) = sum_list (map (h :: 'a \<Rightarrow> nat) xs)"
  unfolding js_sort_def by (induction xs) (auto simp: sum_list_sort_insert)

lemma groupByPattern_Nil: "0 < minGroupSize a \<Longrightarrow> groupByPattern a [] = Inr []"
proof -
  assume pos: "0 < minGroupSize a"
  have "try_patterns mgs [] ps [] [] = Inr ([], [])" if "0 < mgs" for mgs ps
    using that by (induction ps) (auto simp: pattern_matches_def Let_def)
  from this [OF pos] show ?thesis by (simp add: groupByPattern_def)
qed

text \<open>
  Claim C3. For every batch of failures the groups of \<open>groupByPattern\<close>, which \<open>analyze\<close>
  turns one by one into its root causes and sorts, partition the batch: every failure of
  the batch is in exactly one group (a pattern's or the catch-all), every failure is in the
  groups as often as in the batch, and the \<open>count\<close> fields of the root causes add up to
  the number of failures. For the empty batch \<open>analyze\<close> returns the empty list.
\<close>

theorem analyze_partitions_input:
  "\<exists>gs rs.
     groupByPattern (RootCauseAnalyzer opts) fs = Inr gs \<and>
     analyze (RootCauseAnalyzer opts) fs = Inr rs \<and>
     rs = js_sort (\<lambda>x y. confidence y - confidence x) (map to_root_cause gs) \<and>
     (\<forall>x. x \<in> set fs \<longrightarrow> length (filter (\<lambda>g. x \<in> set (failures g)) gs) = 1) \<and>
     (\<forall>x. sum_list (map (\<lambda>g. count_list (failures g) x) gs) = count_list fs x) \<and>
     sum_list (map count rs) = length fs \<and>
     (fs = [] \<longrightarrow> rs = [])"
proof -
  let ?a = "RootCauseAnalyzer opts"
  from groupByPattern_partition [OF minGroupSize_pos, of opts fs] obtain gs where
    gs: "groupByPattern ?a fs = Inr gs"
    and once: "\<forall>x. x \<in> set fs \<longrightarrow> length (filter (\<lambda>g. x \<in> set (failures g)) gs) = 1"
    and counts: "\<forall>x. sum_list (map (\<lambda>g. count_list (failures g) x) gs) = count_list fs x"
    and lengths: "sum_list (map (\<lambda>g. length (failures g)) gs) = length fs"
    by blast
  let ?rs = "js_sort (\<lambda>x y. confidence y - confidence x) (map to_root_cause gs)"
  have nil: "fs = [] \<Longrightarrow> gs = []"
    using gs groupByPattern_Nil [OF minGroupSize_pos, of opts] by simp
  have an: "analyze ?a fs = Inr ?rs"
  proof (cases "fs = []")
    case True
    with nil show ?thesis by (simp add: analyze_def js_sort_def)
  next
    case False
    with gs show ?thesis by (simp add: analyze_def)
  qed
  have "sum_list (map count ?rs) = sum_list (map count (map to_root_cause gs))"
    by (rule sum_list_js_sort)
  also have "\<dots> = sum_list (map (\<lambda>g. length (failures g)) gs)"
    by (simp add: to_root_cause_def comp_def)
  finally have total: "sum_list (map count ?rs) = length fs"
    using lengths by simp
  have "fs = [] \<longrightarrow> ?rs = []"
    using nil by (simp add: js_sort_def)
  with gs an once counts total show ?thesis by blast
qed


theorem analyze_partitions_input_witness:
  "\<exists>gs rs.
     groupByPattern default_analyzer
       [failure_with ''a'' ''x is not a function'', failure_with ''b'' ''y is not a function'',
        failure_with ''c'' ''boom''] = Inr gs \<and>
     analyze default_analyzer
       [failure_with ''a'' ''x is not a function'', failure_with ''b'' ''y is not a function'',
        failure_with ''c'' ''boom''] = Inr rs \<and>
     length (filter (\<lambda>g. failure_with ''c'' ''boom'' \<in> set (failures g)) gs) = 1 \<and>
     sum_list (map count rs) = 3"
proof -
  let ?fs = "[failure_with ''a'' ''x is not a function'', failure_with ''b'' ''y is not a function'',
        failure_with ''c'' ''boom'']"
  from analyze_partitions_input [of "\<lparr>opt_minGroupSize = None, opt_maxSuggestions = None\<rparr>" ?fs]
  obtain gs rs where
    "groupByPattern default_analyzer ?fs = Inr gs"
    "analyze default_analyzer ?fs = Inr rs"
    "\<forall>x. x \<in> set ?fs \<longrightarrow> length (filter (\<lambda>g. x \<in> set (failures g)) gs) = 1"
    "sum_list (map count rs) = length ?fs"
    unfolding default_analyzer_def by blast
  then show ?thesis by auto
qed

section \<open>The root cause analysis: the order of the matchers\<close>

lemma pattern_matches_none:
  "(\<And>x. x \<in> set fs \<Longrightarrow> x \<in> set matched \<or> match_failure p x = None) \<Longrightarrow>
     pattern_matches p matched fs = []"
proof -
  assume a: "\<And>x. x \<in> set fs \<Longrightarrow> x \<in> set matched \<or> match_failure p x = None"
  have "filter (\<lambda>x. x \<notin> set matched \<and> match_failure p x \<noteq> None) fs = []"
    using a by (auto simp: filter_empty_conv)
  then have "length (pattern_matches p matched fs) = 0"
    by (simp add: pattern_matches_length)
  then show ?thesis by simp
qed

lemma pattern_matches_all:
  "(\<And>x. x \<in> set fs \<Longrightarrow> match_failure p x \<noteq> None) \<Longrightarrow>
     map fst (pattern_matches p [] fs) = fs"
  by (simp add: pattern_matches_fst filter_id_conv)

lemma try_patterns_skip:
  "length (pattern_matches p matched fs) < mgs \<Longrightarrow>
     try_patterns mgs fs (p # ps) groups matched = try_patterns mgs fs ps groups matched"
  by (simp add: Let_def)

lemma try_patterns_take:
  "mgs \<le> length (pattern_matches p matched fs) \<Longrightarrow>
   analyze_fn p (pattern_matches p matched fs) = Inr (pat, ev, sug) \<Longrightarrow>
     try_patterns mgs fs (p # ps) groups matched =
       try_patterns mgs fs ps
         (groups @ [\<lparr>confidence = confidence p, pattern = pat, evidence = ev,
             suggestion = sug, failures = map fst (pattern_matches p matched fs)\<rparr>])
         (matched @ map fst (pattern_matches p matched fs))"
  by (simp add: Let_def)

lemma assertion_before_timeout:
  assumes pos: "0 < minGroupSize a"
    and len: "minGroupSize a \<le> length fs"
    and both: "\<And>x. x \<in> set fs \<Longrightarrow>
        match_failure assertion_error x \<noteq> None \<and> match_failure timeout x \<noteq> None"
    and earlier: "\<And>x. x \<in> set fs \<Longrightarrow>
        match_failure undefined_property_access x = None \<and>
        match_failure null_property_access x = None \<and>
        match_failure type_mismatch x = None \<and> match_failure array_length x = None"
  shows "groupByPattern a fs =
           Inr [\<lparr>confidence = 60 / 100, pattern = ''General assertion failures'',
                 evidence = show_nat (length fs) @ '' test(s) failed assertions'',
                 suggestion = ''Review test expectations and actual behavior - values or behavior may have changed'',
                 failures = fs\<rparr>]"
proof -
  let ?mgs = "minGroupSize a"
  have none: "pattern_matches p [] fs = []"
    if "p \<in> {undefined_property_access, null_property_access, type_mismatch, array_length}" for p
    using that earlier by (intro pattern_matches_none) auto
  have skip0: "try_patterns ?mgs fs (p # ps) [] [] = try_patterns ?mgs fs ps [] []"
    if "p \<in> {undefined_property_access, null_property_access, type_mismatch, array_length}" for p ps
    using none [OF that] pos by (intro try_patterns_skip) simp
  have fst: "map fst (pattern_matches assertion_error [] fs) = fs"
    using both by (intro pattern_matches_all) auto
  then have lenm: "length (pattern_matches assertion_error [] fs) = length fs"
    by (metis length_map)
  have "analyze_fn assertion_error ms =
      Inr (''General assertion failures'', show_nat (length ms) @ '' test(s) failed assertions'',
        ''Review test expectations and actual behavior - values or behavior may have changed'')" for ms
    by (simp add: assertion_error_def)
  from this [of "pattern_matches assertion_error [] fs"]
  have an: "analyze_fn assertion_error (pattern_matches assertion_error [] fs) =
      Inr (''General assertion failures'', show_nat (length fs) @ '' test(s) failed assertions'',
        ''Review test expectations and actual behavior - values or behavior may have changed'')"
    by (simp only: lenm)
  have conf: "confidence assertion_error = 60 / 100"
    by (simp add: assertion_error_def)
  let ?g = "\<lparr>confidence = 60 / 100, pattern = ''General assertion failures'',
                 evidence = show_nat (length fs) @ '' test(s) failed assertions'',
                 suggestion = ''Review test expectations and actual behavior - values or behavior may have changed'',
                 failures = fs\<rparr>"
  have take: "try_patterns ?mgs fs (assertion_error # ps) [] [] = try_patterns ?mgs fs ps [?g] fs" for ps
    using try_patterns_take [of ?mgs assertion_error "[]" fs _ _ _ ps "[]", OF _ an] len lenm fst conf
    by simp
  have done': "pattern_matches p fs fs = []" for p
    by (intro pattern_matches_none) auto
  have skip1: "try_patterns ?mgs fs (p # ps) [?g] fs = try_patterns ?mgs fs ps [?g] fs" for p ps
    using done' [of p] pos by (intro try_patterns_skip) simp
  have s1: "try_patterns ?mgs fs (undefined_property_access # ps) [] [] =
      try_patterns ?mgs fs ps [] []" for ps
    by (rule skip0) simp
  have s2: "try_patterns ?mgs fs (null_property_access # ps) [] [] =
      try_patterns ?mgs fs ps [] []" for ps
    by (rule skip0) simp
  have s3: "try_patterns ?mgs fs (type_mismatch # ps) [] [] =
      try_patterns ?mgs fs ps [] []" for ps
    by (rule skip0) simp
  have s4: "try_patterns ?mgs fs (array_length # ps) [] [] =
      try_patterns ?mgs fs ps [] []" for ps
    by (rule skip0) simp
  have "try_patterns ?mgs fs getPatternMatchers [] [] = Inr ([?g], fs)"
    unfolding getPatternMatchers_def
    by (simp only: s1 s2 s3 s4 take skip1 try_patterns.simps(1))
  from groupByPattern_cases [OF this] show ?thesis by simp
qed

lemma claimed_at_turn:
  assumes pos: "0 < minGroupSize a"
    and split: "getPatternMatchers = pre @ p # post"
    and before: "try_patterns (minGroupSize a) fs pre [] [] = Inr (groups, matched)"
    and enough: "minGroupSize a \<le>
        length (filter (\<lambda>x. x \<notin> set matched \<and> match_failure p x \<noteq> None) fs)"
  shows "\<exists>gs g. groupByPattern a fs = Inr gs \<and> g \<in> set gs \<and>
           confidence g = confidence p \<and>
           failures g = filter (\<lambda>x. x \<notin> set matched \<and> match_failure p x \<noteq> None) fs \<and>
           (\<forall>x. x \<in> set (failures g) \<longrightarrow>
              length (filter (\<lambda>h. x \<in> set (failures h)) gs) = 1)"
proof -
  let ?mgs = "minGroupSize a"
  let ?ms = "pattern_matches p matched fs"
  have mem: "p \<in> set getPatternMatchers" and sub: "set post \<subseteq> set getPatternMatchers"
    by (simp_all add: split subset_iff)
  from enough have enough': "?mgs \<le> length ?ms"
    by (simp add: pattern_matches_length)
  with pos have "?ms \<noteq> []" by auto
  from analyze_fn_ok [OF mem this] obtain pat ev sug where
    an: "analyze_fn p ?ms = Inr (pat, ev, sug)"
    by (metis prod_cases3)
  let ?g = "\<lparr>confidence = confidence p, pattern = pat, evidence = ev, suggestion = sug,
             failures = map fst ?ms\<rparr>"
  from try_patterns_ok [OF pos sub] obtain groups' matched' where
    rest: "try_patterns ?mgs fs post (groups @ [?g]) (matched @ map fst ?ms) = Inr (groups', matched')"
    by (metis surj_pair)
  have run: "try_patterns ?mgs fs getPatternMatchers [] [] = Inr (groups', matched')"
    unfolding split try_patterns_append
    using before try_patterns_take [OF enough' an] rest by simp
  from try_patterns_grows [OF rest] obtain more where "groups' = (groups @ [?g]) @ more" ..
  then have in': "?g \<in> set groups'" by simp
  from groupByPattern_partition [OF pos, of fs] obtain gs where
    gs: "groupByPattern a fs = Inr gs"
    and once: "\<forall>x. x \<in> set fs \<longrightarrow> length (filter (\<lambda>g. x \<in> set (failures g)) gs) = 1"
    by blast
  from groupByPattern_cases [OF run] gs in' have "?g \<in> set gs"
    by (auto split: if_splits)
  moreover have "failures ?g = filter (\<lambda>x. x \<notin> set matched \<and> match_failure p x \<noteq> None) fs"
    by (simp add: pattern_matches_fst)
  moreover have "\<forall>x. x \<in> set (failures ?g) \<longrightarrow>
      length (filter (\<lambda>h. x \<in> set (failures h)) gs) = 1"
    using once by (simp add: pattern_matches_fst)
  moreover have "confidence ?g = confidence p" by simp
  ultimately show ?thesis using gs by blast
qed


text \<open>
  Claim C1, as the code has it. \<open>groupByPattern\<close> tries the matchers in the order of the
  source's array: undefined_property_access, null_property_access, type_mismatch,
  array_length, assertion_error, timeout, not_a_function, undefined_reference. At a
  matcher's turn, when the failures not yet claimed whose message matches it number at
  least \<open>minGroupSize\<close>, exactly these become a group with the matcher's confidence, and
  each of them is in no other group of the result. In particular a batch of at least
  \<open>minGroupSize\<close> failures whose messages match both the timeout and the AssertionError
  pattern, and none of the four patterns tried before them, is one group of
  assertion_error with confidence 0.60, not one of timeout.
\<close>

theorem matchers_tried_in_source_order:
  "map name getPatternMatchers =
     [''undefined_property_access'', ''null_property_access'', ''type_mismatch'',
      ''array_length'', ''assertion_error'', ''timeout'', ''not_a_function'',
      ''undefined_reference''] \<and>
   (\<forall>pre p post groups matched.
      getPatternMatchers = pre @ p # post \<longrightarrow>
      try_patterns (minGroupSize (RootCauseAnalyzer opts)) fs pre [] [] = Inr (groups, matched) \<longrightarrow>
      minGroupSize (RootCauseAnalyzer opts) \<le>
        length (filter (\<lambda>x. x \<notin> set matched \<and> match_failure p x \<noteq> None) fs) \<longrightarrow>
      (\<exists>gs g. groupByPattern (RootCauseAnalyzer opts) fs = Inr gs \<and> g \<in> set gs \<and>
         confidence g = confidence p \<and>
         failures g = filter (\<lambda>x. x \<notin> set matched \<and> match_failure p x \<noteq> None) fs \<and>
         (\<forall>x. x \<in> set (failures g) \<longrightarrow>
            length (filter (\<lambda>h. x \<in> set (failures h)) gs) = 1))) \<and>
   (minGroupSize (RootCauseAnalyzer opts) \<le> length fs \<longrightarrow>
    (\<forall>x \<in> set fs.
       match_failure assertion_error x \<noteq> None \<and> match_failure timeout x \<noteq> None \<and>
       match_failure undefined_property_access x = None \<and>
       match_failure null_property_access x = None \<and>
       match_failure type_mismatch x = None \<and> match_failure array_length x = None) \<longrightarrow>
    groupByPattern (RootCauseAnalyzer opts) fs =
      Inr [\<lparr>confidence = 60 / 100, pattern = ''General assertion failures'',
            evidence = show_nat (length fs) @ '' test(s) failed assertions'',
            suggestion = ''Review test expectations and actual behavior - values or behavior may have changed'',
            failures = fs\<rparr>])"
proof (intro conjI allI impI)
  show "map name getPatternMatchers =
     [''undefined_property_access'', ''null_property_access'', ''type_mismatch'',
      ''array_length'', ''assertion_error'', ''timeout'', ''not_a_function'',
      ''undefined_reference'']"
    by (simp add: getPatternMatchers_def undefined_property_access_def
        null_property_access_def type_mismatch_def array_length_def assertion_error_def
        timeout_def not_a_function_def undefined_reference_def)
next
  fix pre p post groups matched
  assume "getPatternMatchers = pre @ p # post"
    and "try_patterns (minGroupSize (RootCauseAnalyzer opts)) fs pre [] [] = Inr (groups, matched)"
    and "minGroupSize (RootCauseAnalyzer opts) \<le>
        length (filter (\<lambda>x. x \<notin> set matched \<and> match_failure p x \<noteq> None) fs)"
  then show "\<exists>gs g. groupByPattern (RootCauseAnalyzer opts) fs = Inr gs \<and> g \<in> set gs \<and>
         confidence g = confidence p \<and>
         failures g = filter (\<lambda>x. x \<notin> set matched \<and> match_failure p x \<noteq> None) fs \<and>
         (\<forall>x. x \<in> set (failures g) \<longrightarrow>
            length (filter (\<lambda>h. x \<in> set (failures h)) gs) = 1)"
    by (rule claimed_at_turn [OF minGroupSize_pos])
next
  assume "minGroupSize (RootCauseAnalyzer opts) \<le> length fs"
    and "\<forall>x \<in> set fs.
       match_failure assertion_error x \<noteq> None \<and> match_failure timeout x \<noteq> None \<and>
       match_failure undefined_property_access x = None \<and>
       match_failure null_property_access x = None \<and>
       match_failure type_mismatch x = None \<and> match_failure array_length x = None"
  then show "groupByPattern (RootCauseAnalyzer opts) fs =
      Inr [\<lparr>confidence = 60 / 100, pattern = ''General assertion failures'',
            evidence = show_nat (length fs) @ '' test(s) failed assertions'',
            suggestion = ''Review test expectations and actual behavior - values or behavior may have changed'',
            failures = fs\<rparr>]"
    by (intro assertion_before_timeout [OF minGroupSize_pos]) auto
qed

theorem matchers_tried_in_source_order_witness:
  "map name getPatternMatchers =
     [''undefined_property_access'', ''null_property_access'', ''type_mismatch'',
      ''array_length'', ''assertion_error'', ''timeout'', ''not_a_function'',
      ''undefined_reference''] \<and>
   (\<exists>gs g. groupByPattern default_analyzer
        [failure_with ''a'' ''AssertionError: operation timed out'',
         failure_with ''b'' ''AssertionError: timeout of 5000ms exceeded''] = Inr gs \<and>
      g \<in> set gs \<and> confidence g = confidence assertion_error \<and>
      failures g =
        [failure_with ''a'' ''AssertionError: operation timed out'',
         failure_with ''b'' ''AssertionError: timeout of 5000ms exceeded'']) \<and>
   groupByPattern default_analyzer
     [failure_with ''a'' ''AssertionError: operation timed out'',
      failure_with ''b'' ''AssertionError: timeout of 5000ms exceeded''] =
   Inr [\<lparr>confidence = 60 / 100, pattern = ''General assertion failures'',
         evidence = show_nat 2 @ '' test(s) failed assertions'',
         suggestion = ''Review test expectations and actual behavior - values or behavior may have changed'',
         failures = [failure_with ''a'' ''AssertionError: operation timed out'',
      failure_with ''b'' ''AssertionError: timeout of 5000ms exceeded'']\<rparr>]"
proof -
  let ?fs = "[failure_with ''a'' ''AssertionError: operation timed out'',
      failure_with ''b'' ''AssertionError: timeout of 5000ms exceeded'']"
  note T = matchers_tried_in_source_order
    [of "\<lparr>opt_minGroupSize = None, opt_maxSuggestions = None\<rparr>" ?fs,
     folded default_analyzer_def]
  have h1: "getPatternMatchers =
      [undefined_property_access, null_property_access, type_mismatch, array_length]
        @ assertion_error # [timeout, not_a_function, undefined_reference]"
    by (simp add: getPatternMatchers_def)
  have h2: "try_patterns (minGroupSize default_analyzer) ?fs
      [undefined_property_access, null_property_access, type_mismatch, array_length] [] [] =
      Inr ([], [])"
    by code_simp
  have h3: "filter (\<lambda>x. x \<notin> set [] \<and> match_failure assertion_error x \<noteq> None) ?fs = ?fs"
    by code_simp
  have h4: "minGroupSize default_analyzer \<le> length ?fs"
    by code_simp
  have h5: "\<forall>x \<in> set ?fs.
       match_failure assertion_error x \<noteq> None \<and> match_failure timeout x \<noteq> None \<and>
       match_failure undefined_property_access x = None \<and>
       match_failure null_property_access x = None \<and>
       match_failure type_mismatch x = None \<and> match_failure array_length x = None"
    by code_simp
  from h4 h3 have h3': "minGroupSize default_analyzer \<le>
      length (filter (\<lambda>x. x \<notin> set [] \<and> match_failure assertion_error x \<noteq> None) ?fs)"
    by (simp only:)
  from T [THEN conjunct2, THEN conjunct1, rule_format, OF h1 h2 h3']
  obtain gs g where
    "groupByPattern default_analyzer ?fs = Inr gs" "g \<in> set gs"
    "confidence g = confidence assertion_error"
    "failures g = filter (\<lambda>x. x \<notin> set [] \<and> match_failure assertion_error x \<noteq> None) ?fs"
    by blast
  then have second: "\<exists>gs g. groupByPattern default_analyzer ?fs = Inr gs \<and> g \<in> set gs \<and>
      confidence g = confidence assertion_error \<and> failures g = ?fs"
    using h3 by auto
  from T [THEN conjunct2, THEN conjunct2] h4 h5
  have third: "groupByPattern default_analyzer ?fs =
   Inr [\<lparr>confidence = 60 / 100, pattern = ''General assertion failures'',
         evidence = show_nat 2 @ '' test(s) failed assertions'',
         suggestion = ''Review test expectations and actual behavior - values or behavior may have changed'',
         failures = ?fs\<rparr>]"
    by (simp add: numeral_2_eq_2)
  from T [THEN conjunct1] second third show ?thesis by blast
qed

text \<open>
  Two failures whose messages match the timeout pattern and the AssertionError pattern:
  the spec's table puts timeout first, the code groups them under assertion_error.
\<close>

theorem timeout_and_assertion_counterexample:
  "match_failure timeout (failure_with ''a'' ''AssertionError: operation timed out'') \<noteq> None \<and>
   match_failure assertion_error (failure_with ''a'' ''AssertionError: operation timed out'') \<noteq> None \<and>
   match_failure timeout (failure_with ''b'' ''AssertionError: timeout of 5000ms exceeded'') \<noteq> None \<and>
   match_failure assertion_error (failure_with ''b'' ''AssertionError: timeout of 5000ms exceeded'') \<noteq> None \<and>
   groupByPattern default_analyzer
     [failure_with ''a'' ''AssertionError: operation timed out'',
      failure_with ''b'' ''AssertionError: timeout of 5000ms exceeded''] =
   Inr [\<lparr>confidence = 60 / 100, pattern = ''General assertion failures'',
         evidence = ''2 test(s) failed assertions'',
         suggestion = ''Review test expectations and actual behavior - values or behavior may have changed'',
         failures = [failure_with ''a'' ''AssertionError: operation timed out'',
      failure_with ''b'' ''AssertionError: timeout of 5000ms exceeded'']\<rparr>]"
  by code_simp

section \<open>The persistent index: the disabled store\<close>

lemma initialize_idem: "initialized st \<Longrightarrow> initialize ev st = st"
  by (simp add: initialize_def)

lemma initialize_unavailable:
  assumes "\<not> enabled st \<or> (\<not> initialized st \<and> (\<not> better_sqlite3 ev \<or> open_database ev = None))"
  shows "\<not> enabled (initialize ev st) \<and> db (initialize ev st) = db st"
  using assms by (auto simp: initialize_def)

lemma disabled_ops:
  assumes "\<not> enabled (initialize ev st)"
  shows "recordTestRun ev sm md st = (None, initialize ev st)"
    and "recordTestResults ev rid tests st = initialize ev st"
    and "getTestHistory ev nm cnt st = ([], initialize ev st)"
    and "getFlakiness ev nm w st = (None, initialize ev st)"
    and "findSimilarFailures ev h st = ([], initialize ev st)"
  using assms
  by (simp_all add: recordTestRun_def recordTestResults_def getTestHistory_def getFlakiness_def
        findSimilarFailures_def Let_def split: option.split)

lemma recordTestResults_returns_Undefined:
  "recordTestResults_returns ev rid tests st = Undefined"
  by (simp add: recordTestResults_returns_def Let_def split: option.split prod.split)

text \<open>
  Claim C7. When the index is disabled, by its options or because the module or the
  database file could not be opened at the first use, every operation is a no-op that
  returns normally: \<open>recordTestRun\<close> returns \<open>null\<close>, \<open>recordTestResults\<close> returns
  \<open>undefined\<close> with the database as it was, \<open>getTestHistory\<close> and \<open>findSimilarFailures\<close>
  return the empty list and \<open>getFlakiness\<close> returns \<open>null\<close>; the operations that follow,
  whatever the world is then, find the index disabled still. The \<open>undefined\<close> of
  \<open>recordTestResults\<close> tells nothing: it is what the operation returns for every index,
  also after it has recorded the batch.
\<close>

theorem disabled_store_is_noop:
  assumes "\<not> enabled st \<or>
           (\<not> initialized st \<and> (\<not> better_sqlite3 ev \<or> open_database ev = None))"
  shows "fst (recordTestRun ev sm md st) = None \<and>
         db (snd (recordTestRun ev sm md st)) = db st \<and>
         recordTestResults_returns ev rid tests st = Undefined \<and>
         db (recordTestResults ev rid tests st) = db st \<and>
         fst (getTestHistory ev nm cnt st) = [] \<and>
         db (snd (getTestHistory ev nm cnt st)) = db st \<and>
         fst (getFlakiness ev nm w st) = None \<and>
         db (snd (getFlakiness ev nm w st)) = db st \<and>
         fst (findSimilarFailures ev h st) = [] \<and>
         db (snd (findSimilarFailures ev h st)) = db st \<and>
         fst (getTestHistory ev' nm cnt (snd (recordTestRun ev sm md st))) = [] \<and>
         fst (recordTestRun ev' sm md (recordTestResults ev rid tests st)) = None \<and>
         recordTestResults_returns ev2 rid2 tests2 st2 = Undefined"
proof -
  from initialize_unavailable [OF assms]
  have off: "\<not> enabled (initialize ev st)" and same: "db (initialize ev st) = db st"
    by simp_all
  have off': "\<not> enabled (initialize ev' (initialize ev st))"
    using initialize_unavailable [of "initialize ev st" ev'] off by simp
  show ?thesis
    by (simp add: disabled_ops [OF off] disabled_ops [OF off'] same
          recordTestResults_returns_Undefined)
qed

theorem disabled_store_is_noop_witness:
  "fst (recordTestRun (world_at ''2025-01-08T12:00:00.000Z'' (\<lambda>n. ''2024-12-09 12:00:00''))
          no_summary no_metadata
          (PersistentIndex \<lparr>opt_enabled = Some False, opt_retentionDays = None,
             opt_trackGit = None\<rparr>)) = None \<and>
   recordTestResults_returns
     (world_at ''2025-01-08T12:00:00.000Z'' (\<lambda>n. ''2024-12-09 12:00:00''))
     (Some 1) [pass_with ''parses'']
     (PersistentIndex \<lparr>opt_enabled = Some False, opt_retentionDays = None,
        opt_trackGit = None\<rparr>) = Undefined \<and>
   fst (getTestHistory (world_at ''2025-01-08T12:00:01.000Z'' (\<lambda>n. ''2024-12-09 12:00:01''))
          ''parses'' 10
          (snd (recordTestRun (world_at ''2025-01-08T12:00:00.000Z'' (\<lambda>n. ''2024-12-09 12:00:00''))
             no_summary no_metadata
             (PersistentIndex \<lparr>opt_enabled = Some False, opt_retentionDays = None,
                opt_trackGit = None\<rparr>)))) = []"
proof -
  have "\<not> enabled (PersistentIndex \<lparr>opt_enabled = Some False, opt_retentionDays = None,
             opt_trackGit = None\<rparr>)"
    by (simp add: PersistentIndex_def)
  then show ?thesis
    using disabled_store_is_noop
      [where st = "PersistentIndex \<lparr>opt_enabled = Some False, opt_retentionDays = None,
             opt_trackGit = None\<rparr>"
         and ev = "world_at ''2025-01-08T12:00:00.000Z'' (\<lambda>n. ''2024-12-09 12:00:00'')"
         and sm = no_summary and md = no_metadata and nm = "''parses''" and cnt = 10
         and rid = "Some 1" and tests = "[pass_with ''parses'']"
         and ev' = "world_at ''2025-01-08T12:00:01.000Z'' (\<lambda>n. ''2024-12-09 12:00:01'')"]
    by blast
qed

text \<open>
  The value \<open>recordTestResults\<close> returns on a disabled index is the value it returns on an
  index that records the batch: the first call leaves no database, the second a row.
\<close>

theorem recordTestResults_signal_counterexample:
  "recordTestResults_returns
     (world_at ''2025-01-08T12:00:00.000Z'' (\<lambda>n. ''2024-12-09 12:00:00''))
     (Some 1) [pass_with ''parses'']
     (PersistentIndex \<lparr>opt_enabled = Some False, opt_retentionDays = None,
        opt_trackGit = None\<rparr>) = Undefined \<and>
   db (recordTestResults
     (world_at ''2025-01-08T12:00:00.000Z'' (\<lambda>n. ''2024-12-09 12:00:00''))
     (Some 1) [pass_with ''parses'']
     (PersistentIndex \<lparr>opt_enabled = Some False, opt_retentionDays = None,
        opt_trackGit = None\<rparr>)) = None \<and>
   recordTestResults_returns
     (world_at ''2025-01-08T12:00:00.000Z'' (\<lambda>n. ''2024-12-09 12:00:00''))
     (Some 1) [pass_with ''parses'']
     (snd (recordTestRun (world_at ''2025-01-08T12:00:00.000Z'' (\<lambda>n. ''2024-12-09 12:00:00''))
        no_summary no_metadata default_index)) = Undefined \<and>
   map test_name (results (the (db (recordTestResults
     (world_at ''2025-01-08T12:00:00.000Z'' (\<lambda>n. ''2024-12-09 12:00:00''))
     (Some 1) [pass_with ''parses'']
     (snd (recordTestRun (world_at ''2025-01-08T12:00:00.000Z'' (\<lambda>n. ''2024-12-09 12:00:00''))
        no_summary no_metadata default_index)))))) = [''parses'']"
  by (intro conjI; code_simp)

section \<open>The persistent index: recordTestResults is atomic\<close>

lemma insert_result_ok:
  "insert_result n dbs x = Inr dbs' \<Longrightarrow>
     \<exists>row. dbs' = dbs\<lparr>results := results dbs @ [row], results_seq := Suc (results_seq dbs)\<rparr> \<and>
       Some (test_name row) = t x \<and> file' row = file_of x \<and> run_id row = n \<and>
       status row = (if e x = None then ''pass'' else ''fail'') \<and>
       error_hash row = hashError (e x)"
  by (auto simp: insert_result_def Let_def hashError_def split: option.splits if_splits)

lemma insertMany_ok:
  "insertMany n dbs tests = (None, dbs') \<Longrightarrow>
     \<exists>rows. dbs' = dbs\<lparr>results := results dbs @ rows,
                       results_seq := results_seq dbs + length tests\<rparr> \<and>
       map (\<lambda>r. (Some (test_name r), file' r, run_id r, status r, error_hash r)) rows =
       map (\<lambda>x. (t x, file_of x, n, if e x = None then ''pass'' else ''fail'', hashError (e x)))
         tests"
proof (induction tests arbitrary: dbs)
  case Nil
  then show ?case by simp
next
  case (Cons x xs)
  from Cons.prems obtain dbs1 where
    one: "insert_result n dbs x = Inr dbs1" and more: "insertMany n dbs1 xs = (None, dbs')"
    by (auto split: sum.splits)
  from insert_result_ok [OF one] obtain row where
    d1: "dbs1 = dbs\<lparr>results := results dbs @ [row], results_seq := Suc (results_seq dbs)\<rparr>"
    and row: "Some (test_name row) = t x" "file' row = file_of x" "run_id row = n"
      "status row = (if e x = None then ''pass'' else ''fail'')"
      "error_hash row = hashError (e x)"
    by blast
  from Cons.IH [OF more] obtain rows where
    d2: "dbs' = dbs1\<lparr>results := results dbs1 @ rows,
                      results_seq := results_seq dbs1 + length xs\<rparr>"
    and rows: "map (\<lambda>r. (Some (test_name r), file' r, run_id r, status r, error_hash r)) rows =
       map (\<lambda>x. (t x, file_of x, n, if e x = None then ''pass'' else ''fail'', hashError (e x))) xs"
    by blast
  have "dbs' = dbs\<lparr>results := results dbs @ (row # rows),
                    results_seq := results_seq dbs + length (x # xs)\<rparr>"
    by (simp add: d1 d2)
  moreover have
    "map (\<lambda>r. (Some (test_name r), file' r, run_id r, status r, error_hash r)) (row # rows) =
     map (\<lambda>x. (t x, file_of x, n, if e x = None then ''pass'' else ''fail'', hashError (e x)))
       (x # xs)"
    using row rows by simp
  ultimately show ?case by blast
qed

lemma insert_result_fails:
  "(\<exists>err. insert_result n dbs x = Inl err) \<longleftrightarrow>
     t x = None \<or> (foreign_keys dbs \<and> n \<notin> set (map id' (runs dbs)))"
  by (auto simp: insert_result_def Let_def split: option.splits)

lemma insert_result_keeps:
  "insert_result n dbs x = Inr dbs' \<Longrightarrow>
     foreign_keys dbs' = foreign_keys dbs \<and> runs dbs' = runs dbs"
  by (auto simp: insert_result_def Let_def split: option.splits if_splits)

lemma insertMany_fails:
  "fst (insertMany n dbs tests) \<noteq> None \<longleftrightarrow>
     list_ex (\<lambda>x. t x = None) tests \<or>
     (tests \<noteq> [] \<and> foreign_keys dbs \<and> n \<notin> set (map id' (runs dbs)))"
proof (induction tests arbitrary: dbs)
  case Nil
  show ?case by simp
next
  case (Cons x xs)
  show ?case
  proof (cases "insert_result n dbs x")
    case (Inl err)
    with insert_result_fails [of n dbs x] show ?thesis by auto
  next
    case (Inr dbs1)
    with insert_result_fails [of n dbs x]
    have ok: "t x \<noteq> None" "\<not> (foreign_keys dbs \<and> n \<notin> set (map id' (runs dbs)))"
      by auto
    from insert_result_keeps [OF Inr] ok Cons.IH [of dbs1] Inr show ?thesis
      by auto
  qed
qed

lemma transaction_cases:
  "transaction body dbs =
     (case body dbs of
        (None, dbs') \<Rightarrow> (None, dbs')
      | (Some err, dbs') \<Rightarrow> (Some err, dbs))"
  by (simp add: transaction_def sql_begin_def sql_commit_def sql_rollback_def
        split: prod.split option.split)

lemma store_db_same: "db st = Some dbs \<Longrightarrow> st\<lparr>db := Some dbs\<rparr> = st"
  by (cases st) simp

lemma recordTestResults_cases:
  "recordTestResults ev rid tests st = initialize ev st \<or>
   (\<exists>n dbs dbs'. rid = Some n \<and> db (initialize ev st) = Some dbs \<and>
      insertMany n dbs tests = (None, dbs') \<and>
      recordTestResults ev rid tests st = (initialize ev st)\<lparr>db := Some dbs'\<rparr>)"
proof (cases "db (initialize ev st)")
  case None
  then show ?thesis by (simp add: recordTestResults_def)
next
  case (Some dbs)
  show ?thesis
  proof (cases rid)
    case None
    with Some show ?thesis by (simp add: recordTestResults_def)
  next
    case n: (Some n)
    show ?thesis
    proof (cases "\<not> enabled (initialize ev st) \<or> n = 0")
      case True
      with Some n show ?thesis by (auto simp: recordTestResults_def)
    next
      case False
      obtain thrown dbs' where r: "insertMany n dbs tests = (thrown, dbs')"
        by (cases "insertMany n dbs tests")
      show ?thesis
      proof (cases thrown)
        case None
        with Some n False r show ?thesis
          by (simp add: recordTestResults_def transaction_cases)
      next
        case err: (Some err)
        with Some n False r store_db_same [OF Some] show ?thesis
          by (simp add: recordTestResults_def transaction_cases)
      qed
    qed
  qed
qed

lemma recordTestResults_failing:
  assumes "rid = Some n" and "db (initialize ev st) = Some dbs"
    and "fst (insertMany n dbs tests) \<noteq> None"
  shows "recordTestResults ev rid tests st = initialize ev st"
  using recordTestResults_cases [of ev rid tests st] assms by auto

lemma recordTestResults_nameless:
  "list_ex (\<lambda>x. t x = None) tests \<Longrightarrow> recordTestResults ev rid tests st = initialize ev st"
proof -
  assume "list_ex (\<lambda>x. t x = None) tests"
  then have "insertMany n dbs tests \<noteq> (None, dbs')" for n dbs dbs'
    using insertMany_fails [of n dbs tests] by auto
  then show ?thesis
    using recordTestResults_cases [of ev rid tests st] by blast
qed

lemma recordTestResults_no_run:
  assumes "rid = Some n" and "db (initialize ev st) = Some dbs"
    and "foreign_keys dbs" and "n \<notin> set (map id' (runs dbs))"
  shows "recordTestResults ev rid tests st = initialize ev st"
proof (cases tests)
  case Nil
  from recordTestResults_cases [of ev rid tests st] assms(1,2) store_db_same [OF assms(2)]
  show ?thesis unfolding Nil by auto
next
  case (Cons x xs)
  with assms(3,4) have "fst (insertMany n dbs tests) \<noteq> None"
    unfolding insertMany_fails by simp
  from recordTestResults_failing [OF assms(1,2) this] show ?thesis .
qed

text \<open>
  Claim C5. \<open>recordTestResults\<close> is atomic: after the call either the index is as
  initialisation left it, with no row of the batch in \<open>results\<close>, or \<open>results\<close> has grown by
  one row for every entry of the batch, in order, and nothing else has changed. Whenever
  a statement of the loop fails the index is as initialisation left it, whatever the
  loop had written before; and a statement fails exactly when the batch has an entry
  without a name (\<open>NOT NULL\<close>) or, the batch not being empty, the foreign key is enforced
  and no run has the given id.
\<close>

theorem recordTestResults_all_or_nothing:
  "(recordTestResults ev rid tests st = initialize ev st \<or>
    (\<exists>n dbs rows. rid = Some n \<and> db (initialize ev st) = Some dbs \<and>
       recordTestResults ev rid tests st =
         (initialize ev st)\<lparr>db := Some (dbs\<lparr>results := results dbs @ rows,
            results_seq := results_seq dbs + length tests\<rparr>)\<rparr> \<and>
       map (\<lambda>r. (Some (test_name r), file' r, run_id r, status r, error_hash r)) rows =
       map (\<lambda>x. (t x, file_of x, n, if e x = None then ''pass'' else ''fail'',
              hashError (e x))) tests)) \<and>
   (\<forall>n dbs. rid = Some n \<and> db (initialize ev st) = Some dbs \<and>
      fst (insertMany n dbs tests) \<noteq> None \<longrightarrow>
      recordTestResults ev rid tests st = initialize ev st) \<and>
   (\<forall>n dbs. fst (insertMany n dbs tests) \<noteq> None \<longleftrightarrow>
      list_ex (\<lambda>x. t x = None) tests \<or>
      (tests \<noteq> [] \<and> foreign_keys dbs \<and> n \<notin> set (map id' (runs dbs)))) \<and>
   (list_ex (\<lambda>x. t x = None) tests \<longrightarrow>
      recordTestResults ev rid tests st = initialize ev st) \<and>
   (\<forall>n dbs. rid = Some n \<and> db (initialize ev st) = Some dbs \<and>
      foreign_keys dbs \<and> n \<notin> set (map id' (runs dbs)) \<longrightarrow>
      recordTestResults ev rid tests st = initialize ev st)"
proof (intro conjI allI impI)
  from recordTestResults_cases [of ev rid tests st]
  show "recordTestResults ev rid tests st = initialize ev st \<or>
    (\<exists>n dbs rows. rid = Some n \<and> db (initialize ev st) = Some dbs \<and>
       recordTestResults ev rid tests st =
         (initialize ev st)\<lparr>db := Some (dbs\<lparr>results := results dbs @ rows,
            results_seq := results_seq dbs + length tests\<rparr>)\<rparr> \<and>
       map (\<lambda>r. (Some (test_name r), file' r, run_id r, status r, error_hash r)) rows =
       map (\<lambda>x. (t x, file_of x, n, if e x = None then ''pass'' else ''fail'',
              hashError (e x))) tests)"
  proof
    assume "recordTestResults ev rid tests st = initialize ev st"
    then show ?thesis ..
  next
    assume "\<exists>n dbs dbs'. rid = Some n \<and> db (initialize ev st) = Some dbs \<and>
      insertMany n dbs tests = (None, dbs') \<and>
      recordTestResults ev rid tests st = (initialize ev st)\<lparr>db := Some dbs'\<rparr>"
    then obtain n dbs dbs' where
      a: "rid = Some n" "db (initialize ev st) = Some dbs"
        "insertMany n dbs tests = (None, dbs')"
        "recordTestResults ev rid tests st = (initialize ev st)\<lparr>db := Some dbs'\<rparr>"
      by blast
    from insertMany_ok [OF a(3)] a show ?thesis by blast
  qed
next
  fix n dbs
  assume "rid = Some n \<and> db (initialize ev st) = Some dbs \<and>
      fst (insertMany n dbs tests) \<noteq> None"
  then show "recordTestResults ev rid tests st = initialize ev st"
    using recordTestResults_failing by blast
next
  fix n dbs
  show "fst (insertMany n dbs tests) \<noteq> None \<longleftrightarrow>
      list_ex (\<lambda>x. t x = None) tests \<or>
      (tests \<noteq> [] \<and> foreign_keys dbs \<and> n \<notin> set (map id' (runs dbs)))"
    by (rule insertMany_fails)
next
  assume "list_ex (\<lambda>x. t x = None) tests"
  then show "recordTestResults ev rid tests st = initialize ev st"
    by (rule recordTestResults_nameless)
next
  fix n dbs
  assume "rid = Some n \<and> db (initialize ev st) = Some dbs \<and>
      foreign_keys dbs \<and> n \<notin> set (map id' (runs dbs))"
  then show "recordTestResults ev rid tests st = initialize ev st"
    using recordTestResults_no_run by blast
qed

text \<open>
  The loop alone is not atomic: on a batch of a named entry and a nameless one it has
  written the first row when the second statement fails. The rollback takes it back.
\<close>

lemma insertMany_writes_before_failure:
  "map test_name (results (snd (insertMany 1
      (the (db (snd (recordTestRun
         (world_at ''2025-01-08T12:00:00.000Z'' (\<lambda>n. ''2024-12-09 12:00:00''))
         no_summary no_metadata default_index))))
      [pass_with ''a'', (pass_with ''b'')\<lparr>t := None\<rparr>]))) = [''a'']"
  by code_simp

theorem recordTestResults_all_or_nothing_witness:
  "recordTestResults (world_at ''2025-01-08T12:00:00.000Z'' (\<lambda>n. ''2024-12-09 12:00:00''))
     (Some 1) [pass_with ''a'', (pass_with ''b'')\<lparr>t := None\<rparr>]
     (snd (recordTestRun (world_at ''2025-01-08T12:00:00.000Z'' (\<lambda>n. ''2024-12-09 12:00:00''))
        no_summary no_metadata default_index)) =
   initialize (world_at ''2025-01-08T12:00:00.000Z'' (\<lambda>n. ''2024-12-09 12:00:00''))
     (snd (recordTestRun (world_at ''2025-01-08T12:00:00.000Z'' (\<lambda>n. ''2024-12-09 12:00:00''))
        no_summary no_metadata default_index)) \<and>
   recordTestResults (world_at ''2025-01-08T12:00:00.000Z'' (\<lambda>n. ''2024-12-09 12:00:00''))
     (Some 7) [pass_with ''a'', pass_with ''b'']
     (snd (recordTestRun (world_at ''2025-01-08T12:00:00.000Z'' (\<lambda>n. ''2024-12-09 12:00:00''))
        no_summary no_metadata default_index)) =
   initialize (world_at ''2025-01-08T12:00:00.000Z'' (\<lambda>n. ''2024-12-09 12:00:00''))
     (snd (recordTestRun (world_at ''2025-01-08T12:00:00.000Z'' (\<lambda>n. ''2024-12-09 12:00:00''))
        no_summary no_metadata default_index)) \<and>
   map test_name (results (the (db
     (recordTestResults (world_at ''2025-01-08T12:00:00.000Z'' (\<lambda>n. ''2024-12-09 12:00:00''))
        (Some 1) [pass_with ''a'', failure_with ''b'' ''boom'']
        (snd (recordTestRun (world_at ''2025-01-08T12:00:00.000Z'' (\<lambda>n. ''2024-12-09 12:00:00''))
           no_summary no_metadata default_index)))))) = [''a'', ''b'']"
proof (intro conjI)
  let ?w = "world_at ''2025-01-08T12:00:00.000Z'' (\<lambda>n. ''2024-12-09 12:00:00'')"
  let ?st = "snd (recordTestRun ?w no_summary no_metadata default_index)"
  have "list_ex (\<lambda>x. t x = None) [pass_with ''a'', (pass_with ''b'')\<lparr>t := None\<rparr>]"
    by simp
  with recordTestResults_all_or_nothing
    [of ?w "Some 1" "[pass_with ''a'', (pass_with ''b'')\<lparr>t := None\<rparr>]" ?st]
  show "recordTestResults ?w (Some 1) [pass_with ''a'', (pass_with ''b'')\<lparr>t := None\<rparr>] ?st =
      initialize ?w ?st"
    by blast
  have "db (initialize ?w ?st) \<noteq> None" by code_simp
  then have d: "db (initialize ?w ?st) = Some (the (db (initialize ?w ?st)))" by simp
  have fk: "foreign_keys (the (db (initialize ?w ?st)))" by code_simp
  have no: "7 \<notin> set (map id' (runs (the (db (initialize ?w ?st)))))" by code_simp
  from recordTestResults_all_or_nothing
    [of ?w "Some 7" "[pass_with ''a'', pass_with ''b'']" ?st] d fk no
  show "recordTestResults ?w (Some 7) [pass_with ''a'', pass_with ''b''] ?st =
      initialize ?w ?st"
    by blast
  show "map test_name (results (the (db
     (recordTestResults ?w (Some 1) [pass_with ''a'', failure_with ''b'' ''boom''] ?st)))) =
     [''a'', ''b'']"
    by code_simp
qed

section \<open>The persistent index: the timestamp of a run\<close>

lemma initialize_initialized: "initialized (initialize ev st)"
  by (simp add: initialize_def cleanup_def Let_def split: option.split sum.split)

lemma delete_old_runs_after_results:
  "delete_old_runs c (delete_old_results c dbs) =
     Inr ((delete_old_results c dbs)
            \<lparr>runs := filter (\<lambda>run. \<not> text_less (timestamp run) c) (runs dbs)\<rparr>)"
proof -
  have "\<not> list_ex (\<lambda>r. list_ex (\<lambda>run. id' run = run_id r \<and> text_less (timestamp run) c)
            (runs (delete_old_results c dbs)))
          (results (delete_old_results c dbs))"
    unfolding delete_old_results_def list_ex_iff by (simp) (metis (mono_tags, lifting) imageI mem_Collect_eq)
  then show ?thesis
    by (simp add: delete_old_runs_def) (simp add: delete_old_results_def)
qed

lemma cleanup_runs:
  assumes "db st = Some dbs" and "enabled st" and "retentionDays st \<noteq> 0"
  shows "\<exists>dbs2. db (cleanup ev st) = Some dbs2 \<and>
           runs dbs2 = filter (\<lambda>run. \<not> text_less (timestamp run)
                                         (datetime_minus_days ev (retentionDays st))) (runs dbs)"
  using assms
  by (simp add: cleanup_def Let_def delete_old_runs_after_results)

lemma runs_counted_getFlakiness:
  assumes "initialized st" and "db st = Some dbs" and "enabled st"
  shows "runs_counted (fst (getFlakiness ev nm w st)) =
           length (flakiness_rows dbs nm (datetime_minus_days ev w))"
  using assms
  by (simp add: getFlakiness_def initialize_idem Let_def runs_counted_def)

lemma join_runs_append:
  "join_runs (dbs\<lparr>results := results dbs @ rows, results_seq := k\<rparr>) =
     join_runs dbs @
     concat (map (\<lambda>r. map (\<lambda>run. (r, run)) (filter (\<lambda>run. run_id r = id' run) (runs dbs))) rows)"
  by (simp add: join_runs_def)

lemma join_new_rows:
  assumes "\<forall>r\<in>set rows. filter (\<lambda>run. run_id r = id' run) rs = [row]"
  shows "concat (map (\<lambda>r. map (\<lambda>run. (r, run)) (filter (\<lambda>run. run_id r = id' run) rs)) rows) =
           map (\<lambda>r. (r, row)) rows"
  using assms by (induction rows) simp_all

lemma length_filter_new_rows:
  "length (filter (\<lambda>(r, run). test_name r = nm \<and> text_less c (timestamp run))
             (map (\<lambda>r. (r, row)) rows)) =
     (if text_less c (timestamp row) then length (filter (\<lambda>r. test_name r = nm) rows) else 0)"
  by (induction rows) simp_all

lemma length_filter_names:
  assumes "map (\<lambda>r. Some (test_name r)) rows = map t tests"
  shows "length (filter (\<lambda>r. test_name r = nm) rows) =
           length (filter (\<lambda>x. t x = Some nm) tests)"
proof -
  have "length (filter (\<lambda>r. test_name r = nm) rows) =
        length (filter (\<lambda>v. v = Some nm) (map (\<lambda>r. Some (test_name r)) rows))"
    by (simp add: filter_map comp_def)
  also have "\<dots> = length (filter (\<lambda>v. v = Some nm) (map t tests))"
    unfolding assms by (rule refl)
  also have "\<dots> = length (filter (\<lambda>x. t x = Some nm) tests)"
    by (simp add: filter_map comp_def)
  finally show ?thesis .
qed

lemma flakiness_rows_recorded:
  assumes fresh: "\<forall>run\<in>set rs. id' run \<noteq> id' row"
    and rows: "map (\<lambda>r. (Some (test_name r), file' r, run_id r, status r, error_hash r)) rows =
       map (\<lambda>x. (t x, file_of x, id' row, if e x = None then ''pass'' else ''fail'',
              hashError (e x))) tests"
    and rs: "runs dbs = rs @ [row]"
  shows "length (flakiness_rows (dbs\<lparr>results := results dbs @ rows, results_seq := k\<rparr>) nm c) =
           length (flakiness_rows dbs nm c) +
           (if text_less c (timestamp row) then length (filter (\<lambda>x. t x = Some nm) tests) else 0)"
proof -
  from arg_cong [OF rows, of "map (\<lambda>p. fst (snd (snd p)))"]
  have "map run_id rows = map (\<lambda>x. id' row) tests" by (simp add: comp_def)
  then have "set (map run_id rows) \<subseteq> {id' row}" by auto
  then have ids: "\<forall>r\<in>set rows. run_id r = id' row" by auto
  from fresh have none: "filter (\<lambda>run. id' row = id' run) rs = []"
    by (simp add: filter_empty_conv) metis
  have "\<forall>r\<in>set rows. filter (\<lambda>run. run_id r = id' run) (runs dbs) = [row]"
  proof
    fix r
    assume "r \<in> set rows"
    with ids have "run_id r = id' row" by blast
    then show "filter (\<lambda>run. run_id r = id' run) (runs dbs) = [row]"
      unfolding rs by (simp add: none)
  qed
  note j = join_new_rows [OF this]
  from arg_cong [OF rows, of "map fst"]
  have "map (\<lambda>r. Some (test_name r)) rows = map t tests" by (simp add: comp_def)
  note n = length_filter_names [OF this]
  show ?thesis
    unfolding flakiness_rows_def join_runs_append j filter_append length_append
      length_filter_new_rows n
    by (rule refl)
qed

lemma recordTestRun_cases:
  "recordTestRun ev sm md st = (None, initialize ev st) \<or>
   (\<exists>dbs. db (initialize ev st) = Some dbs \<and> enabled (initialize ev st) \<and>
      recordTestRun ev sm md st =
        (Some (Suc (runs_seq dbs)),
         (initialize ev st)\<lparr>db := Some (dbs\<lparr>runs := runs dbs @
             [\<lparr>id' = Suc (runs_seq dbs), timestamp = toISOString ev,
               git_hash = fst (getGitInfo ev (initialize ev st)),
               git_branch = snd (getGitInfo ev (initialize ev st)),
               total_tests = or_default (tot sm) 0, passed = or_default (pas sm) 0,
               failed = or_default (fai sm) 0, duration_ms = or_default (dur md) 0,
               metadata = md\<rparr>],
            runs_seq := Suc (runs_seq dbs)\<rparr>)\<rparr>))"
  by (simp add: recordTestRun_def Let_def split: option.split)

lemma join_runs_map:
  "join_runs (dbs\<lparr>runs := map h (runs dbs)\<rparr>) =
     map (\<lambda>(r, run). (r, h run)) (join_runs dbs)"
  if "\<And>run. id' (h run) = id' run"
  unfolding join_runs_def
  by (simp add: map_concat filter_map comp_def that)

lemma flakiness_rows_map:
  assumes "\<And>run. id' (h run) = id' run" and "\<And>run. timestamp (h run) = timestamp run"
  shows "flakiness_rows (dbs\<lparr>runs := map h (runs dbs)\<rparr>) nm c =
           map (\<lambda>(r, run). (r, h run)) (flakiness_rows dbs nm c)"
  unfolding flakiness_rows_def join_runs_map [of h, OF assms(1)]
  by (simp add: filter_map comp_def case_prod_unfold assms(2))

lemma flakiness_rows_without_counts:
  "flakiness_rows (without_counts dbs) nm c =
     map (\<lambda>(r, run). (r, run\<lparr>total_tests := 0, passed := 0, failed := 0\<rparr>))
       (flakiness_rows dbs nm c)"
  unfolding without_counts_def by (rule flakiness_rows_map) simp_all

lemma length_filter_fst_map:
  "length (filter (\<lambda>(r, run). P r) (map (\<lambda>(r, run). (r, h run)) xs)) =
     length (filter (\<lambda>(r, run). P r) xs)"
  by (induction xs) auto

lemma flakiness_counts_cong:
  assumes "without_counts dbsA = without_counts dbsB"
  shows "length (flakiness_rows dbsA nm c) = length (flakiness_rows dbsB nm c)"
    and "length (filter (\<lambda>(r, run). P r) (flakiness_rows dbsA nm c)) =
         length (filter (\<lambda>(r, run). P r) (flakiness_rows dbsB nm c))"
proof -
  let ?h = "\<lambda>run. run\<lparr>total_tests := 0, passed := 0, failed := 0\<rparr>"
  have eq: "map (\<lambda>(r, run). (r, ?h run)) (flakiness_rows dbsA nm c) =
            map (\<lambda>(r, run). (r, ?h run)) (flakiness_rows dbsB nm c)"
    using assms flakiness_rows_without_counts [of dbsA nm c]
      flakiness_rows_without_counts [of dbsB nm c] by simp
  from arg_cong [OF eq, of length]
  show "length (flakiness_rows dbsA nm c) = length (flakiness_rows dbsB nm c)" by simp
  from arg_cong [OF eq, of "\<lambda>xs. length (filter (\<lambda>(r, run). P r) xs)"]
  show "length (filter (\<lambda>(r, run). P r) (flakiness_rows dbsA nm c)) =
        length (filter (\<lambda>(r, run). P r) (flakiness_rows dbsB nm c))"
    by (simp only: length_filter_fst_map)
qed

lemma getFlakiness_cong:
  assumes "initialized stA" and "db stA = Some dbsA" and "stB = stA\<lparr>db := Some dbsB\<rparr>"
    and "without_counts dbsA = without_counts dbsB"
  shows "fst (getFlakiness ev nm w stA) = fst (getFlakiness ev nm w stB)"
proof -
  note c = flakiness_counts_cong [OF assms(4)]
  have "(flakiness_rows dbsA nm x = []) = (flakiness_rows dbsB nm x = [])" for x
    using c(1) [of nm x] by (metis length_0_conv)
  with assms(1-3) c show ?thesis
    by (simp add: getFlakiness_def initialize_idem Let_def)
qed

lemma delete_old_results_without_counts:
  "without_counts (delete_old_results c dbs) = delete_old_results c (without_counts dbs)"
  by (simp add: without_counts_def delete_old_results_def filter_map comp_def)

lemma delete_old_runs_without_counts:
  "delete_old_runs c (without_counts dbs) =
     (case delete_old_runs c dbs of Inl err \<Rightarrow> Inl err | Inr dbs' \<Rightarrow> Inr (without_counts dbs'))"
  by (simp add: without_counts_def delete_old_runs_def filter_map comp_def list_ex_iff)

lemma cleanup_cong:
  assumes "db stA = Some dbsA" and "stB = stA\<lparr>db := Some dbsB\<rparr>"
    and "without_counts dbsA = without_counts dbsB"
  shows "map_option without_counts (db (cleanup ev stA)) =
         map_option without_counts (db (cleanup ev stB))"
proof -
  have "map_option without_counts (db (cleanup ev (st\<lparr>db := Some dbs\<rparr>))) =
        (if \<not> enabled st \<or> retentionDays st = 0 then Some (without_counts dbs)
         else (case delete_old_runs (datetime_minus_days ev (retentionDays st))
                      (delete_old_results (datetime_minus_days ev (retentionDays st))
                         (without_counts dbs)) of
                 Inl err \<Rightarrow> Some (delete_old_results (datetime_minus_days ev (retentionDays st))
                         (without_counts dbs))
               | Inr dbs' \<Rightarrow> Some dbs'))" for st dbs
    by (simp add: cleanup_def Let_def delete_old_runs_without_counts
          delete_old_results_without_counts [symmetric] split: sum.split)
  note step = this
  have "stA = stA\<lparr>db := Some dbsA\<rparr>"
    using assms(1) by (cases stA) simp
  then have "map_option without_counts (db (cleanup ev stA)) =
      map_option without_counts (db (cleanup ev (stA\<lparr>db := Some dbsA\<rparr>)))"
    by simp
  moreover have "map_option without_counts (db (cleanup ev (stA\<lparr>db := Some dbsA\<rparr>))) =
      map_option without_counts (db (cleanup ev (stA\<lparr>db := Some dbsB\<rparr>)))"
    unfolding step assms(3) by (rule refl)
  ultimately show ?thesis
    unfolding assms(2) by (rule trans)
qed

lemma recordTestRun_off:
  "db (initialize ev st) = None \<or> \<not> enabled (initialize ev st) \<Longrightarrow>
     recordTestRun ev sm md st = (None, initialize ev st)"
  by (auto simp: recordTestRun_def Let_def split: option.split)

lemma recordTestRun_on:
  "db (initialize ev st) = Some dbs \<Longrightarrow> enabled (initialize ev st) \<Longrightarrow>
     recordTestRun ev sm md st =
        (Some (Suc (runs_seq dbs)),
         (initialize ev st)\<lparr>db := Some (dbs\<lparr>runs := runs dbs @
             [\<lparr>id' = Suc (runs_seq dbs), timestamp = toISOString ev,
               git_hash = fst (getGitInfo ev (initialize ev st)),
               git_branch = snd (getGitInfo ev (initialize ev st)),
               total_tests = or_default (tot sm) 0, passed = or_default (pas sm) 0,
               failed = or_default (fai sm) 0, duration_ms = or_default (dur md) 0,
               metadata = md\<rparr>],
            runs_seq := Suc (runs_seq dbs)\<rparr>)\<rparr>)"
  by (simp add: recordTestRun_def Let_def)

lemma recorded_run_window:
  assumes on: "db (initialize ev st) = Some dbs" "enabled (initialize ev st)"
    and ts: "timestamp row = toISOString ev" and rid: "id' row = Suc (runs_seq dbs)"
    and st'_def: "st' = (initialize ev st)\<lparr>db := Some (dbs\<lparr>runs := runs dbs @ [row],
               runs_seq := Suc (runs_seq dbs)\<rparr>)\<rparr>"
  shows "retentionDays st' \<noteq> 0 \<longrightarrow>
           (\<exists>dbs2. db (cleanup ev2 st') = Some dbs2 \<and>
              (row \<in> set (runs dbs2) \<longleftrightarrow>
               \<not> text_less (toISOString ev) (datetime_minus_days ev2 (retentionDays st'))))"
    and "(\<forall>run\<in>set (runs dbs). id' run \<le> runs_seq dbs) \<longrightarrow>
         (\<forall>x\<in>set tests. t x \<noteq> None) \<longrightarrow>
           runs_counted (fst (getFlakiness ev2 nm w
              (recordTestResults ev1 (Some (Suc (runs_seq dbs))) tests st'))) =
           runs_counted (fst (getFlakiness ev2 nm w st')) +
           (if text_less (datetime_minus_days ev2 w) (toISOString ev)
            then length (filter (\<lambda>x. t x = Some nm) tests) else 0)"
proof -
  let ?D = "dbs\<lparr>runs := runs dbs @ [row], runs_seq := Suc (runs_seq dbs)\<rparr>"
  have d: "db st' = Some ?D" and en: "enabled st'" and init: "initialized st'"
    using on by (simp_all add: st'_def initialize_initialized)
  show "retentionDays st' \<noteq> 0 \<longrightarrow>
           (\<exists>dbs2. db (cleanup ev2 st') = Some dbs2 \<and>
              (row \<in> set (runs dbs2) \<longleftrightarrow>
               \<not> text_less (toISOString ev) (datetime_minus_days ev2 (retentionDays st'))))"
  proof
    assume "retentionDays st' \<noteq> 0"
    from cleanup_runs [OF d en this, of ev2] obtain dbs2 where
      c: "db (cleanup ev2 st') = Some dbs2"
      and r: "runs dbs2 = filter (\<lambda>run. \<not> text_less (timestamp run)
                 (datetime_minus_days ev2 (retentionDays st'))) (runs ?D)"
      by blast
    have "row \<in> set (runs dbs2) \<longleftrightarrow>
        \<not> text_less (toISOString ev) (datetime_minus_days ev2 (retentionDays st'))"
      unfolding r by (simp add: ts)
    with c show "\<exists>dbs2. db (cleanup ev2 st') = Some dbs2 \<and>
              (row \<in> set (runs dbs2) \<longleftrightarrow>
               \<not> text_less (toISOString ev) (datetime_minus_days ev2 (retentionDays st')))"
      by blast
  qed
  show "(\<forall>run\<in>set (runs dbs). id' run \<le> runs_seq dbs) \<longrightarrow>
         (\<forall>x\<in>set tests. t x \<noteq> None) \<longrightarrow>
           runs_counted (fst (getFlakiness ev2 nm w
              (recordTestResults ev1 (Some (Suc (runs_seq dbs))) tests st'))) =
           runs_counted (fst (getFlakiness ev2 nm w st')) +
           (if text_less (datetime_minus_days ev2 w) (toISOString ev)
            then length (filter (\<lambda>x. t x = Some nm) tests) else 0)"
  proof (intro impI)
    assume wf: "\<forall>run\<in>set (runs dbs). id' run \<le> runs_seq dbs"
      and named: "\<forall>x\<in>set tests. t x \<noteq> None"
    from wf have fresh: "\<forall>run\<in>set (runs dbs). id' run \<noteq> id' row"
      unfolding rid by auto
    have "\<not> list_ex (\<lambda>x. t x = None) tests"
      using named by (simp add: list_ex_iff)
    moreover have "Suc (runs_seq dbs) \<in> set (map id' (runs ?D))"
      using rid by simp
    ultimately have "fst (insertMany (Suc (runs_seq dbs)) ?D tests) = None"
      using insertMany_fails [of "Suc (runs_seq dbs)" ?D tests] by blast
    then obtain D2 where im: "insertMany (Suc (runs_seq dbs)) ?D tests = (None, D2)"
      by (cases "insertMany (Suc (runs_seq dbs)) ?D tests") simp
    from insertMany_ok [OF im] obtain rows where
      D2: "D2 = ?D\<lparr>results := results ?D @ rows,
                    results_seq := results_seq ?D + length tests\<rparr>"
      and rows: "map (\<lambda>r. (Some (test_name r), file' r, run_id r, status r, error_hash r)) rows =
        map (\<lambda>x. (t x, file_of x, Suc (runs_seq dbs), if e x = None then ''pass'' else ''fail'',
               hashError (e x))) tests"
      by blast
    have st2: "recordTestResults ev1 (Some (Suc (runs_seq dbs))) tests st' = st'\<lparr>db := Some D2\<rparr>"
      using d en im
      by (simp add: recordTestResults_def initialize_idem [OF init] transaction_cases)
    have rs: "runs ?D = runs dbs @ [row]" by simp
    note len = flakiness_rows_recorded [OF fresh rows [folded rid] rs,
        of "results_seq ?D + length tests" nm "datetime_minus_days ev2 w"]
    have "runs_counted (fst (getFlakiness ev2 nm w (st'\<lparr>db := Some D2\<rparr>))) =
        length (flakiness_rows D2 nm (datetime_minus_days ev2 w))"
      by (rule runs_counted_getFlakiness) (simp_all add: init en)
    moreover have "runs_counted (fst (getFlakiness ev2 nm w st')) =
        length (flakiness_rows ?D nm (datetime_minus_days ev2 w))"
      by (rule runs_counted_getFlakiness [OF init d en])
    ultimately show "runs_counted (fst (getFlakiness ev2 nm w
              (recordTestResults ev1 (Some (Suc (runs_seq dbs))) tests st'))) =
           runs_counted (fst (getFlakiness ev2 nm w st')) +
           (if text_less (datetime_minus_days ev2 w) (toISOString ev)
            then length (filter (\<lambda>x. t x = Some nm) tests) else 0)"
      unfolding st2 D2 [symmetric] using len unfolding D2 [symmetric] ts by simp
  qed
qed

text \<open>
  The ids of the runs never exceed the counter of \<open>AUTOINCREMENT\<close>: the operations keep
  this property of a database, and the one a new file starts with has it.
\<close>

lemma run_ids_recordTestRun:
  assumes "db (initialize ev st) = Some dbs"
    and "\<forall>run\<in>set (runs dbs). id' run \<le> runs_seq dbs"
    and "db (snd (recordTestRun ev sm md st)) = Some dbs'"
  shows "\<forall>run\<in>set (runs dbs'). id' run \<le> runs_seq dbs'"
  using recordTestRun_cases [of ev sm md st] assms by (auto simp: le_Suc_eq)

lemma run_ids_recordTestResults:
  assumes "db (initialize ev st) = Some dbs"
    and "\<forall>run\<in>set (runs dbs). id' run \<le> runs_seq dbs"
    and "db (recordTestResults ev rid tests st) = Some dbs'"
  shows "\<forall>run\<in>set (runs dbs'). id' run \<le> runs_seq dbs'"
proof -
  from recordTestResults_cases [of ev rid tests st]
  show ?thesis
  proof
    assume "recordTestResults ev rid tests st = initialize ev st"
    with assms show ?thesis by simp
  next
    assume "\<exists>n dbs dbs'. rid = Some n \<and> db (initialize ev st) = Some dbs \<and>
      insertMany n dbs tests = (None, dbs') \<and>
      recordTestResults ev rid tests st = (initialize ev st)\<lparr>db := Some dbs'\<rparr>"
    then obtain n d2 where im: "insertMany n dbs tests = (None, d2)"
      and r: "recordTestResults ev rid tests st = (initialize ev st)\<lparr>db := Some d2\<rparr>"
      using assms(1) by auto
    from insertMany_ok [OF im] obtain rows where
      "d2 = dbs\<lparr>results := results dbs @ rows, results_seq := results_seq dbs + length tests\<rparr>"
      by blast
    with r assms show ?thesis by auto
  qed
qed

lemma run_ids_cleanup:
  assumes "db st = Some dbs"
    and "\<forall>run\<in>set (runs dbs). id' run \<le> runs_seq dbs"
    and "db (cleanup ev st) = Some dbs'"
  shows "\<forall>run\<in>set (runs dbs'). id' run \<le> runs_seq dbs'"
proof (cases "\<not> enabled st \<or> retentionDays st = 0")
  case True
  with assms show ?thesis by (auto simp: cleanup_def)
next
  case False
  let ?c = "datetime_minus_days ev (retentionDays st)"
  from False assms(1,3)
  have "dbs' = (delete_old_results ?c dbs)
      \<lparr>runs := filter (\<lambda>run. \<not> text_less (timestamp run) ?c) (runs dbs)\<rparr>"
    by (simp add: cleanup_def Let_def delete_old_runs_after_results)
  with assms(2) show ?thesis
    by (simp add: delete_old_results_def)
qed

text \<open>
  Claim C9. The run that \<open>recordTestRun\<close> persists carries as its timestamp the text of
  the clock at the insertion, whatever the summary holds: a timestamp in the summary is
  not read, and of the summary only the three counts reach the row. It is this text that
  the later operations compare. A \<open>cleanup\<close> keeps the run exactly when the text is not
  smaller than the cutoff of the retention. And once results are recorded for the run,
  in a database whose run ids do not exceed the counter and for entries with names,
  \<open>getFlakiness\<close> counts for a test the rows it counted before and, exactly when the cutoff
  of the window is smaller than the text, the entries of that test. So what \<open>getFlakiness\<close>
  returns and what a \<open>cleanup\<close> keeps is the same for every summary.
\<close>

theorem run_timestamp_is_insertion_clock:
  "(\<forall>rid st'. recordTestRun ev sm md st = (Some rid, st') \<longrightarrow>
      (\<exists>dbs row. db (initialize ev st) = Some dbs \<and>
         st' = (initialize ev st)\<lparr>db := Some (dbs\<lparr>runs := runs dbs @ [row], runs_seq := rid\<rparr>)\<rparr> \<and>
         id' row = rid \<and> timestamp row = toISOString ev \<and>
         (retentionDays st' \<noteq> 0 \<longrightarrow>
            (\<exists>dbs2. db (cleanup ev2 st') = Some dbs2 \<and>
               (row \<in> set (runs dbs2) \<longleftrightarrow>
                \<not> text_less (toISOString ev)
                    (datetime_minus_days ev2 (retentionDays st'))))) \<and>
         ((\<forall>run\<in>set (runs dbs). id' run \<le> runs_seq dbs) \<longrightarrow>
          (\<forall>x\<in>set tests. t x \<noteq> None) \<longrightarrow>
            runs_counted (fst (getFlakiness ev2 nm w
               (recordTestResults ev1 (Some rid) tests st'))) =
            runs_counted (fst (getFlakiness ev2 nm w st')) +
            (if text_less (datetime_minus_days ev2 w) (toISOString ev)
             then length (filter (\<lambda>x. t x = Some nm) tests) else 0)))) \<and>
   recordTestRun ev (sm\<lparr>ts := x\<rparr>) md st = recordTestRun ev sm md st \<and>
   fst (recordTestRun ev sm2 md st) = fst (recordTestRun ev sm md st) \<and>
   fst (getFlakiness ev2 nm w (snd (recordTestRun ev sm2 md st))) =
     fst (getFlakiness ev2 nm w (snd (recordTestRun ev sm md st))) \<and>
   map_option without_counts (db (cleanup ev2 (snd (recordTestRun ev sm2 md st)))) =
     map_option without_counts (db (cleanup ev2 (snd (recordTestRun ev sm md st))))"
proof (cases "\<exists>dbs. db (initialize ev st) = Some dbs \<and> enabled (initialize ev st)")
  case False
  then have off: "db (initialize ev st) = None \<or> \<not> enabled (initialize ev st)"
    by auto
  show ?thesis
    by (simp add: recordTestRun_off [OF off])
next
  case True
  then obtain dbs where on: "db (initialize ev st) = Some dbs" "enabled (initialize ev st)"
    by blast
  note r = recordTestRun_on [where md = md, OF on]
  let ?row = "\<lambda>s. \<lparr>id' = Suc (runs_seq dbs), timestamp = toISOString ev,
               git_hash = fst (getGitInfo ev (initialize ev st)),
               git_branch = snd (getGitInfo ev (initialize ev st)),
               total_tests = or_default (tot s) 0, passed = or_default (pas s) 0,
               failed = or_default (fai s) 0, duration_ms = or_default (dur md) 0,
               metadata = md\<rparr>"
  let ?dbs = "\<lambda>s. dbs\<lparr>runs := runs dbs @ [?row s], runs_seq := Suc (runs_seq dbs)\<rparr>"
  let ?st = "\<lambda>s. (initialize ev st)\<lparr>db := Some (?dbs s)\<rparr>"
  have snd_eq: "snd (recordTestRun ev s md st) = ?st s" for s
    by (simp add: r)
  have init: "initialized (?st sm2)"
    by (simp add: initialize_initialized)
  have st_eq: "?st sm = (?st sm2)\<lparr>db := Some (?dbs sm)\<rparr>"
    by simp
  have wc: "without_counts (?dbs sm2) = without_counts (?dbs sm)"
    by (simp add: without_counts_def)
  have first: "\<forall>rid st'. recordTestRun ev sm md st = (Some rid, st') \<longrightarrow>
      (\<exists>dbs row. db (initialize ev st) = Some dbs \<and>
         st' = (initialize ev st)\<lparr>db := Some (dbs\<lparr>runs := runs dbs @ [row], runs_seq := rid\<rparr>)\<rparr> \<and>
         id' row = rid \<and> timestamp row = toISOString ev \<and>
         (retentionDays st' \<noteq> 0 \<longrightarrow>
            (\<exists>dbs2. db (cleanup ev2 st') = Some dbs2 \<and>
               (row \<in> set (runs dbs2) \<longleftrightarrow>
                \<not> text_less (toISOString ev)
                    (datetime_minus_days ev2 (retentionDays st'))))) \<and>
         ((\<forall>run\<in>set (runs dbs). id' run \<le> runs_seq dbs) \<longrightarrow>
          (\<forall>x\<in>set tests. t x \<noteq> None) \<longrightarrow>
            runs_counted (fst (getFlakiness ev2 nm w
               (recordTestResults ev1 (Some rid) tests st'))) =
            runs_counted (fst (getFlakiness ev2 nm w st')) +
            (if text_less (datetime_minus_days ev2 w) (toISOString ev)
             then length (filter (\<lambda>x. t x = Some nm) tests) else 0)))"
  proof (intro allI impI)
    fix rid st'
    assume "recordTestRun ev sm md st = (Some rid, st')"
    with r [of sm] have "rid = Suc (runs_seq dbs)" and "st' = ?st sm" by auto
    then have e: "db (initialize ev st) = Some dbs \<and>
         st' = (initialize ev st)\<lparr>db := Some (dbs\<lparr>runs := runs dbs @ [?row sm], runs_seq := rid\<rparr>)\<rparr> \<and>
         id' (?row sm) = rid \<and> timestamp (?row sm) = toISOString ev"
      using on by simp
    have t1: "timestamp (?row sm) = toISOString ev" and i1: "id' (?row sm) = Suc (runs_seq dbs)"
      by simp_all
    note win1 = recorded_run_window(1) [OF on t1 i1 \<open>st' = ?st sm\<close>, where ?ev2.0 = ev2]
    note win2 = recorded_run_window(2) [OF on t1 i1 \<open>st' = ?st sm\<close>,
        where ?ev2.0 = ev2 and tests = tests and nm = nm and w = w and ?ev1.0 = ev1]
    from e win1 win2 show "\<exists>dbs row. db (initialize ev st) = Some dbs \<and>
         st' = (initialize ev st)\<lparr>db := Some (dbs\<lparr>runs := runs dbs @ [row], runs_seq := rid\<rparr>)\<rparr> \<and>
         id' row = rid \<and> timestamp row = toISOString ev \<and>
         (retentionDays st' \<noteq> 0 \<longrightarrow>
            (\<exists>dbs2. db (cleanup ev2 st') = Some dbs2 \<and>
               (row \<in> set (runs dbs2) \<longleftrightarrow>
                \<not> text_less (toISOString ev)
                    (datetime_minus_days ev2 (retentionDays st'))))) \<and>
         ((\<forall>run\<in>set (runs dbs). id' run \<le> runs_seq dbs) \<longrightarrow>
          (\<forall>x\<in>set tests. t x \<noteq> None) \<longrightarrow>
            runs_counted (fst (getFlakiness ev2 nm w
               (recordTestResults ev1 (Some rid) tests st'))) =
            runs_counted (fst (getFlakiness ev2 nm w st')) +
            (if text_less (datetime_minus_days ev2 w) (toISOString ev)
             then length (filter (\<lambda>x. t x = Some nm) tests) else 0))"
      unfolding \<open>rid = Suc (runs_seq dbs)\<close> by blast
  qed
  have second: "recordTestRun ev (sm\<lparr>ts := x\<rparr>) md st = recordTestRun ev sm md st"
    by (simp add: r)
  have third: "fst (recordTestRun ev sm2 md st) = fst (recordTestRun ev sm md st)"
    by (simp add: r)
  have fourth: "fst (getFlakiness ev2 nm w (?st sm2)) = fst (getFlakiness ev2 nm w (?st sm))"
    by (rule getFlakiness_cong [OF init _ st_eq wc]) simp
  have fifth: "map_option without_counts (db (cleanup ev2 (?st sm2))) =
      map_option without_counts (db (cleanup ev2 (?st sm)))"
    by (rule cleanup_cong [OF _ st_eq wc]) simp
  from first second third fourth fifth show ?thesis
    by (simp only: snd_eq)
qed

theorem run_timestamp_is_insertion_clock_witness:
  "runs_counted (fst (getFlakiness
      (world_at ''2025-01-08T12:00:00.000Z'' (\<lambda>n. ''2025-01-01 12:00:00'')) ''t1'' 7
      (recordTestResults
         (world_at ''2024-12-31T09:00:00.000Z'' (\<lambda>n. ''2024-12-01 09:00:00'')) (Some 1)
         [pass_with ''t1'']
         (snd (recordTestRun
            (world_at ''2024-12-31T09:00:00.000Z'' (\<lambda>n. ''2024-12-01 09:00:00''))
            (no_summary\<lparr>ts := Some ''2025-01-05T00:00:00.000Z''\<rparr>) no_metadata
            default_index))))) = 0 \<and>
   runs_counted (fst (getFlakiness
      (world_at ''2025-01-08T12:00:00.000Z'' (\<lambda>n. ''2025-01-01 12:00:00'')) ''t1'' 7
      (recordTestResults
         (world_at ''2025-01-02T09:00:00.000Z'' (\<lambda>n. ''2024-12-03 09:00:00'')) (Some 1)
         [pass_with ''t1'']
         (snd (recordTestRun
            (world_at ''2025-01-02T09:00:00.000Z'' (\<lambda>n. ''2024-12-03 09:00:00''))
            (no_summary\<lparr>ts := Some ''1999-12-31T23:59:59.000Z''\<rparr>) no_metadata
            default_index))))) = 1 \<and>
   (\<exists>row. timestamp row = ''2024-12-31T09:00:00.000Z'' \<and>
      row \<in> set (runs (the (db (snd (recordTestRun
         (world_at ''2024-12-31T09:00:00.000Z'' (\<lambda>n. ''2024-12-01 09:00:00''))
         (no_summary\<lparr>ts := Some ''2025-01-05T00:00:00.000Z''\<rparr>) no_metadata
         default_index))))) \<and>
      row \<notin> set (runs (the (db (cleanup
         (world_at ''2025-01-31T12:00:00.000Z'' (\<lambda>n. ''2025-01-01 12:00:00''))
         (snd (recordTestRun
            (world_at ''2024-12-31T09:00:00.000Z'' (\<lambda>n. ''2024-12-01 09:00:00''))
            (no_summary\<lparr>ts := Some ''2025-01-05T00:00:00.000Z''\<rparr>) no_metadata
            default_index))))))) \<and>
   (\<exists>row. timestamp row = ''2025-01-02T09:00:00.000Z'' \<and>
      row \<in> set (runs (the (db (cleanup
         (world_at ''2025-01-31T12:00:00.000Z'' (\<lambda>n. ''2025-01-01 12:00:00''))
         (snd (recordTestRun
            (world_at ''2025-01-02T09:00:00.000Z'' (\<lambda>n. ''2024-12-03 09:00:00''))
            (no_summary\<lparr>ts := Some ''1999-12-31T23:59:59.000Z''\<rparr>) no_metadata
            default_index)))))))"
proof -
  let ?c = "world_at ''2025-01-31T12:00:00.000Z'' (\<lambda>n. ''2025-01-01 12:00:00'')"
  have kept: "\<exists>row. timestamp row = reading \<and>
      row \<in> set (runs (the (db (snd (recordTestRun (world_at reading cutoff) sm no_metadata
         default_index))))) \<and>
      (row \<in> set (runs (the (db (cleanup ?c
         (snd (recordTestRun (world_at reading cutoff) sm no_metadata default_index)))))) \<longleftrightarrow>
       \<not> text_less reading ''2025-01-01 12:00:00'')"
    if one: "fst (recordTestRun (world_at reading cutoff) sm no_metadata default_index) = Some 1"
      and ret: "retentionDays (snd (recordTestRun (world_at reading cutoff) sm no_metadata
         default_index)) = 30"
    for reading cutoff sm
  proof -
    let ?w = "world_at reading cutoff"
    let ?s = "snd (recordTestRun ?w sm no_metadata default_index)"
    from one have run: "recordTestRun ?w sm no_metadata default_index = (Some 1, ?s)"
      by (metis prod.collapse)
    from ret have r0: "retentionDays ?s \<noteq> 0" by simp
    from run_timestamp_is_insertion_clock
      [where ev = ?w and sm = sm and md = no_metadata and st = default_index
         and ?ev2.0 = ?c, THEN conjunct1, rule_format, OF run]
    obtain dbs row where
      s: "?s = (initialize ?w default_index)\<lparr>db := Some (dbs\<lparr>runs := runs dbs @ [row],
             runs_seq := 1\<rparr>)\<rparr>"
      and t: "timestamp row = toISOString ?w"
      and c: "retentionDays ?s \<noteq> 0 \<longrightarrow>
            (\<exists>dbs2. db (cleanup ?c ?s) = Some dbs2 \<and>
               (row \<in> set (runs dbs2) \<longleftrightarrow>
                \<not> text_less (toISOString ?w) (datetime_minus_days ?c (retentionDays ?s))))"
      by blast
    from c r0 obtain dbs2 where d2: "db (cleanup ?c ?s) = Some dbs2"
      and k: "row \<in> set (runs dbs2) \<longleftrightarrow>
                \<not> text_less (toISOString ?w) (datetime_minus_days ?c (retentionDays ?s))"
      by blast
    have "row \<in> set (runs (the (db ?s)))"
      by (subst s) simp
    moreover have "timestamp row = reading"
      using t by (simp add: world_at_def)
    moreover have "row \<in> set (runs (the (db (cleanup ?c ?s)))) \<longleftrightarrow>
        \<not> text_less reading ''2025-01-01 12:00:00''"
      using k unfolding d2 by (simp add: world_at_def)
    ultimately show ?thesis by blast
  qed
  have k1: "\<exists>row. timestamp row = ''2024-12-31T09:00:00.000Z'' \<and>
      row \<in> set (runs (the (db (snd (recordTestRun
         (world_at ''2024-12-31T09:00:00.000Z'' (\<lambda>n. ''2024-12-01 09:00:00''))
         (no_summary\<lparr>ts := Some ''2025-01-05T00:00:00.000Z''\<rparr>) no_metadata
         default_index))))) \<and>
      (row \<in> set (runs (the (db (cleanup ?c
         (snd (recordTestRun
            (world_at ''2024-12-31T09:00:00.000Z'' (\<lambda>n. ''2024-12-01 09:00:00''))
            (no_summary\<lparr>ts := Some ''2025-01-05T00:00:00.000Z''\<rparr>) no_metadata
            default_index)))))) \<longleftrightarrow>
       \<not> text_less ''2024-12-31T09:00:00.000Z'' ''2025-01-01 12:00:00'')"
    by (rule kept; code_simp)
  have k2: "\<exists>row. timestamp row = ''2025-01-02T09:00:00.000Z'' \<and>
      row \<in> set (runs (the (db (snd (recordTestRun
         (world_at ''2025-01-02T09:00:00.000Z'' (\<lambda>n. ''2024-12-03 09:00:00''))
         (no_summary\<lparr>ts := Some ''1999-12-31T23:59:59.000Z''\<rparr>) no_metadata
         default_index))))) \<and>
      (row \<in> set (runs (the (db (cleanup ?c
         (snd (recordTestRun
            (world_at ''2025-01-02T09:00:00.000Z'' (\<lambda>n. ''2024-12-03 09:00:00''))
            (no_summary\<lparr>ts := Some ''1999-12-31T23:59:59.000Z''\<rparr>) no_metadata
            default_index)))))) \<longleftrightarrow>
       \<not> text_less ''2025-01-02T09:00:00.000Z'' ''2025-01-01 12:00:00'')"
    by (rule kept; code_simp)
  let ?q = "world_at ''2025-01-08T12:00:00.000Z'' (\<lambda>n. ''2025-01-01 12:00:00'')"
  have step: "runs_counted (fst (getFlakiness ?q ''t1'' 7
        (recordTestResults (world_at reading cutoff) (Some 1) [pass_with ''t1'']
           (snd (recordTestRun (world_at reading cutoff) sm no_metadata default_index))))) =
      (if text_less ''2025-01-01 12:00:00'' reading then 1 else 0)"
    if one: "fst (recordTestRun (world_at reading cutoff) sm no_metadata default_index) = Some 1"
      and none: "runs_counted (fst (getFlakiness ?q ''t1'' 7
         (snd (recordTestRun (world_at reading cutoff) sm no_metadata default_index)))) = 0"
      and fresh: "db (initialize (world_at reading cutoff) default_index) = Some empty_database"
    for reading cutoff sm
  proof -
    let ?w = "world_at reading cutoff"
    from one have run: "recordTestRun ?w sm no_metadata default_index =
        (Some 1, snd (recordTestRun ?w sm no_metadata default_index))"
      by (metis prod.collapse)
    from run_timestamp_is_insertion_clock
      [where ev = ?w and sm = sm and md = no_metadata and st = default_index
         and ?ev2.0 = ?q and nm = "''t1''" and w = 7 and ?ev1.0 = ?w
         and tests = "[pass_with ''t1'']",
       THEN conjunct1, rule_format, OF run]
    obtain dbs where d: "db (initialize ?w default_index) = Some dbs"
      and c: "(\<forall>run\<in>set (runs dbs). id' run \<le> runs_seq dbs) \<longrightarrow>
          (\<forall>x\<in>set [pass_with ''t1'']. t x \<noteq> None) \<longrightarrow>
            runs_counted (fst (getFlakiness ?q ''t1'' 7
               (recordTestResults ?w (Some 1) [pass_with ''t1'']
                  (snd (recordTestRun ?w sm no_metadata default_index))))) =
            runs_counted (fst (getFlakiness ?q ''t1'' 7
               (snd (recordTestRun ?w sm no_metadata default_index)))) +
            (if text_less (datetime_minus_days ?q 7) (toISOString ?w)
             then length (filter (\<lambda>x. t x = Some ''t1'') [pass_with ''t1'']) else 0)"
      by blast
    from d fresh have "dbs = empty_database" by simp
    then have wf: "\<forall>run\<in>set (runs dbs). id' run \<le> runs_seq dbs"
      by (simp add: empty_database_def)
    have named: "\<forall>x\<in>set [pass_with ''t1'']. t x \<noteq> None"
      by (simp add: pass_with_def)
    from c wf named none show ?thesis
      by (simp add: world_at_def pass_with_def)
  qed
  have a: "runs_counted (fst (getFlakiness ?q ''t1'' 7
      (recordTestResults
         (world_at ''2024-12-31T09:00:00.000Z'' (\<lambda>n. ''2024-12-01 09:00:00'')) (Some 1)
         [pass_with ''t1'']
         (snd (recordTestRun
            (world_at ''2024-12-31T09:00:00.000Z'' (\<lambda>n. ''2024-12-01 09:00:00''))
            (no_summary\<lparr>ts := Some ''2025-01-05T00:00:00.000Z''\<rparr>) no_metadata
            default_index))))) =
      (if text_less ''2025-01-01 12:00:00'' ''2024-12-31T09:00:00.000Z'' then 1 else 0)"
    by (rule step; code_simp)
  have b: "runs_counted (fst (getFlakiness ?q ''t1'' 7
      (recordTestResults
         (world_at ''2025-01-02T09:00:00.000Z'' (\<lambda>n. ''2024-12-03 09:00:00'')) (Some 1)
         [pass_with ''t1'']
         (snd (recordTestRun
            (world_at ''2025-01-02T09:00:00.000Z'' (\<lambda>n. ''2024-12-03 09:00:00''))
            (no_summary\<lparr>ts := Some ''1999-12-31T23:59:59.000Z''\<rparr>) no_metadata
            default_index))))) =
      (if text_less ''2025-01-01 12:00:00'' ''2025-01-02T09:00:00.000Z'' then 1 else 0)"
    by (rule step; code_simp)
  have t1: "text_less ''2024-12-31T09:00:00.000Z'' ''2025-01-01 12:00:00''"
    and t2: "\<not> text_less ''2025-01-02T09:00:00.000Z'' ''2025-01-01 12:00:00''"
    by simp_all
  from a b have ab: "runs_counted (fst (getFlakiness ?q ''t1'' 7
      (recordTestResults
         (world_at ''2024-12-31T09:00:00.000Z'' (\<lambda>n. ''2024-12-01 09:00:00'')) (Some 1)
         [pass_with ''t1'']
         (snd (recordTestRun
            (world_at ''2024-12-31T09:00:00.000Z'' (\<lambda>n. ''2024-12-01 09:00:00''))
            (no_summary\<lparr>ts := Some ''2025-01-05T00:00:00.000Z''\<rparr>) no_metadata
            default_index))))) = 0 \<and>
   runs_counted (fst (getFlakiness ?q ''t1'' 7
      (recordTestResults
         (world_at ''2025-01-02T09:00:00.000Z'' (\<lambda>n. ''2024-12-03 09:00:00'')) (Some 1)
         [pass_with ''t1'']
         (snd (recordTestRun
            (world_at ''2025-01-02T09:00:00.000Z'' (\<lambda>n. ''2024-12-03 09:00:00''))
            (no_summary\<lparr>ts := Some ''1999-12-31T23:59:59.000Z''\<rparr>) no_metadata
            default_index))))) = 1"
    by simp
  from k1 t1 have k1': "\<exists>row. timestamp row = ''2024-12-31T09:00:00.000Z'' \<and>
      row \<in> set (runs (the (db (snd (recordTestRun
         (world_at ''2024-12-31T09:00:00.000Z'' (\<lambda>n. ''2024-12-01 09:00:00''))
         (no_summary\<lparr>ts := Some ''2025-01-05T00:00:00.000Z''\<rparr>) no_metadata
         default_index))))) \<and>
      row \<notin> set (runs (the (db (cleanup ?c
         (snd (recordTestRun
            (world_at ''2024-12-31T09:00:00.000Z'' (\<lambda>n. ''2024-12-01 09:00:00''))
            (no_summary\<lparr>ts := Some ''2025-01-05T00:00:00.000Z''\<rparr>) no_metadata
            default_index))))))"
    by blast
  from k2 t2 have k2': "\<exists>row. timestamp row = ''2025-01-02T09:00:00.000Z'' \<and>
      row \<in> set (runs (the (db (cleanup ?c
         (snd (recordTestRun
            (world_at ''2025-01-02T09:00:00.000Z'' (\<lambda>n. ''2024-12-03 09:00:00''))
            (no_summary\<lparr>ts := Some ''1999-12-31T23:59:59.000Z''\<rparr>) no_metadata
            default_index))))))"
    by blast
  from ab k1' k2' show ?thesis by blast
qed

section \<open>The persistent index: entries without a message\<close>








section \<open>The persistent index: findSimilarFailures\<close>

lemma set_order_insert: "set (order_insert after x ys) = insert x (set ys)"
  by (induction ys) auto

lemma set_order_by: "set (order_by after xs) = set xs"
  unfolding order_by_def by (induction xs) (auto simp: set_order_insert)

lemma distinct_map_order_insert:
  "distinct (map k (order_insert after x ys)) =
     (k x \<notin> k ` set ys \<and> distinct (map k ys))"
  by (induction ys) (auto simp: set_order_insert)

lemma distinct_map_order_by:
  "distinct (map k (order_by after xs)) = distinct (map k xs)"
  unfolding order_by_def
proof (induction xs)
  case Nil
  show ?case by simp
next
  case (Cons x xs)
  have "set (foldr (order_insert after) xs []) = set xs"
    using set_order_by [of after xs] by (simp add: order_by_def)
  with Cons show ?case by (simp add: distinct_map_order_insert)
qed

lemma sorted_order_insert:
  fixes g :: "'a \<Rightarrow> nat"
  assumes "sorted_wrt (\<lambda>a b. g b \<le> g a) ys"
  shows "sorted_wrt (\<lambda>a b. g b \<le> g a) (order_insert (\<lambda>a b. g a < g b) x ys)"
  using assms
proof (induction ys)
  case Nil
  show ?case by simp
next
  case (Cons y ys)
  show ?case
  proof (cases "g x < g y")
    case True
    with Cons show ?thesis by (auto simp: set_order_insert)
  next
    case False
    with Cons.prems show ?thesis by fastforce
  qed
qed

lemma sorted_order_by:
  fixes g :: "'a \<Rightarrow> nat"
  shows "sorted_wrt (\<lambda>a b. g b \<le> g a) (order_by (\<lambda>a b. g a < g b) xs)"
  unfolding order_by_def by (induction xs) (auto intro: sorted_order_insert)

lemma sorted_wrt_take: "sorted_wrt R xs \<Longrightarrow> sorted_wrt R (take n xs)"
  by (metis append_take_drop_id sorted_wrt_append)

lemma findSimilarFailures_length: "length (fst (findSimilarFailures ev hh st)) \<le> 10"
  by (simp add: findSimilarFailures_def similar_rows_def Let_def split: option.split)

lemma findSimilarFailures_on:
  "db (initialize ev st) = Some dbs \<Longrightarrow> enabled (initialize ev st) \<Longrightarrow> h \<noteq> [] \<Longrightarrow>
     fst (findSimilarFailures ev (Some h) st) = similar_rows dbs h"
  by (simp add: findSimilarFailures_def Let_def)

text \<open>
  Claim C8. For every hash, the rows of \<open>findSimilarFailures\<close> are the first ten of a list
  that has one row for each pair of test name and file among the results with status
  \<open>fail\<close> and that hash, each with the number of those results, sorted by that number,
  largest first. So the rows are sorted and at most ten.
\<close>

theorem similar_failures_grouped_sorted_capped:
  "(\<exists>every.
      similar_rows dbs h = take 10 every \<and>
      sorted_wrt (\<lambda>a b. occurrences b \<le> occurrences a) every \<and>
      distinct (map (\<lambda>r. (test_name r, file' r)) every) \<and>
      set (map (\<lambda>r. (test_name r, file' r)) every) =
        (\<lambda>r. (test_name r, file' r)) `
          {r \<in> set (results dbs). error_hash r = Some h \<and> status r = ''fail''} \<and>
      (\<forall>r \<in> set every.
         occurrences r =
           length (filter (\<lambda>x. test_name x = test_name r \<and> file' x = file' r \<and>
                     error_hash x = Some h \<and> status x = ''fail'') (results dbs)))) \<and>
   sorted_wrt (\<lambda>a b. occurrences b \<le> occurrences a) (similar_rows dbs h) \<and>
   length (fst (findSimilarFailures ev hh st)) \<le> 10 \<and>
   (db (initialize ev st) = Some dbs \<longrightarrow> enabled (initialize ev st) \<longrightarrow> h \<noteq> [] \<longrightarrow>
      fst (findSimilarFailures ev (Some h) st) = similar_rows dbs h)"
proof -
  let ?rows = "filter (\<lambda>r. error_hash r = Some h \<and> status r = ''fail'') (results dbs)"
  let ?keys = "remdups (map (\<lambda>r. (test_name r, file' r)) ?rows)"
  let ?grouped = "map (\<lambda>(nm, fl).
                      \<lparr>test_name = nm, file' = fl,
                       occurrences = length (filter (\<lambda>r. test_name r = nm \<and> file' r = fl) ?rows)\<rparr>)
                    ?keys"
  let ?every = "order_by (\<lambda>a b. occurrences a < occurrences b) ?grouped"
  have sr: "similar_rows dbs h = take 10 ?every"
    by (simp add: similar_rows_def Let_def)
  have sorted: "sorted_wrt (\<lambda>a b. occurrences b \<le> occurrences a) ?every"
    by (rule sorted_order_by)
  have key: "map (\<lambda>r. (test_name r, file' r)) ?grouped = ?keys"
    by (simp add: comp_def case_prod_unfold)
  have "distinct (map (\<lambda>r. (test_name r, file' r)) ?grouped)"
    unfolding key by simp
  then have dist: "distinct (map (\<lambda>r. (test_name r, file' r)) ?every)"
    by (simp only: distinct_map_order_by)
  have "set (map (\<lambda>r. (test_name r, file' r)) ?every) =
      (\<lambda>r. (test_name r, file' r)) ` set ?grouped"
    by (simp only: set_map set_order_by)
  also have "\<dots> = set (map (\<lambda>r. (test_name r, file' r)) ?grouped)"
    by (simp only: set_map)
  also have "\<dots> = set ?keys"
    by (simp only: key)
  also have "\<dots> = (\<lambda>r. (test_name r, file' r)) `
          {r \<in> set (results dbs). error_hash r = Some h \<and> status r = ''fail''}"
    by auto
  finally have keys: "set (map (\<lambda>r. (test_name r, file' r)) ?every) =
        (\<lambda>r. (test_name r, file' r)) `
          {r \<in> set (results dbs). error_hash r = Some h \<and> status r = ''fail''}" .
  have occ: "\<forall>r \<in> set ?every.
         occurrences r =
           length (filter (\<lambda>x. test_name x = test_name r \<and> file' x = file' r \<and>
                     error_hash x = Some h \<and> status x = ''fail'') (results dbs))"
    by (auto simp: set_order_by conj_commute conj_left_commute intro!: arg_cong [of _ _ length] filter_cong)
  from sr sorted dist keys occ have first: "\<exists>every.
      similar_rows dbs h = take 10 every \<and>
      sorted_wrt (\<lambda>a b. occurrences b \<le> occurrences a) every \<and>
      distinct (map (\<lambda>r. (test_name r, file' r)) every) \<and>
      set (map (\<lambda>r. (test_name r, file' r)) every) =
        (\<lambda>r. (test_name r, file' r)) `
          {r \<in> set (results dbs). error_hash r = Some h \<and> status r = ''fail''} \<and>
      (\<forall>r \<in> set every.
         occurrences r =
           length (filter (\<lambda>x. test_name x = test_name r \<and> file' x = file' r \<and>
                     error_hash x = Some h \<and> status x = ''fail'') (results dbs)))"
    by blast
  have second: "sorted_wrt (\<lambda>a b. occurrences b \<le> occurrences a) (similar_rows dbs h)"
    unfolding sr by (rule sorted_wrt_take [OF sorted])
  from first second show ?thesis
    by (simp add: findSimilarFailures_length findSimilarFailures_on)
qed

theorem similar_failures_grouped_sorted_capped_witness:
  "fst (findSimilarFailures
          (world_at ''2025-01-08T12:00:00.000Z'' (\<lambda>n. ''2024-12-09 12:00:00''))
          (Some (md5_hex ''boom N''))
          (recordTestResults
             (world_at ''2025-01-08T12:00:00.000Z'' (\<lambda>n. ''2024-12-09 12:00:00'')) (Some 1)
             [failure_with ''a'' ''boom 1'', failure_with ''b'' ''boom 2'',
              failure_with ''a'' ''boom 3'', pass_with ''c'']
             (snd (recordTestRun
                (world_at ''2025-01-08T12:00:00.000Z'' (\<lambda>n. ''2024-12-09 12:00:00''))
                no_summary no_metadata default_index)))) =
     [\<lparr>test_name = ''a'', file' = ''unknown'', occurrences = 2\<rparr>,
      \<lparr>test_name = ''b'', file' = ''unknown'', occurrences = 1\<rparr>] \<and>
   length (fst (findSimilarFailures
          (world_at ''2025-01-08T12:00:00.000Z'' (\<lambda>n. ''2024-12-09 12:00:00''))
          (Some (md5_hex ''boom N''))
          (recordTestResults
             (world_at ''2025-01-08T12:00:00.000Z'' (\<lambda>n. ''2024-12-09 12:00:00'')) (Some 1)
             [failure_with ''a'' ''boom 1'', failure_with ''b'' ''boom 2'',
              failure_with ''a'' ''boom 3'', pass_with ''c'']
             (snd (recordTestRun
                (world_at ''2025-01-08T12:00:00.000Z'' (\<lambda>n. ''2024-12-09 12:00:00''))
                no_summary no_metadata default_index))))) \<le> 10"
proof
  show "fst (findSimilarFailures
          (world_at ''2025-01-08T12:00:00.000Z'' (\<lambda>n. ''2024-12-09 12:00:00''))
          (Some (md5_hex ''boom N''))
          (recordTestResults
             (world_at ''2025-01-08T12:00:00.000Z'' (\<lambda>n. ''2024-12-09 12:00:00'')) (Some 1)
             [failure_with ''a'' ''boom 1'', failure_with ''b'' ''boom 2'',
              failure_with ''a'' ''boom 3'', pass_with ''c'']
             (snd (recordTestRun
                (world_at ''2025-01-08T12:00:00.000Z'' (\<lambda>n. ''2024-12-09 12:00:00''))
                no_summary no_metadata default_index)))) =
     [\<lparr>test_name = ''a'', file' = ''unknown'', occurrences = 2\<rparr>,
      \<lparr>test_name = ''b'', file' = ''unknown'', occurrences = 1\<rparr>]"
    by code_simp
next
  from similar_failures_grouped_sorted_capped
  show "length (fst (findSimilarFailures
          (world_at ''2025-01-08T12:00:00.000Z'' (\<lambda>n. ''2024-12-09 12:00:00''))
          (Some (md5_hex ''boom N''))
          (recordTestResults
             (world_at ''2025-01-08T12:00:00.000Z'' (\<lambda>n. ''2024-12-09 12:00:00'')) (Some 1)
             [failure_with ''a'' ''boom 1'', failure_with ''b'' ''boom 2'',
              failure_with ''a'' ''boom 3'', pass_with ''c'']
             (snd (recordTestRun
                (world_at ''2025-01-08T12:00:00.000Z'' (\<lambda>n. ''2024-12-09 12:00:00''))
                no_summary no_metadata default_index))))) \<le> 10"
    by blast
qed


section \<open>The persistent index: the window of getFlakiness and of cleanup\<close>

text \<open>
  Claim C4, at an input where the code departs from it. The timestamp of a run is the
  text of \<open>toISOString\<close>, with a \<open>T\<close> between date and time; the query compares it as text
  with SQLite's \<open>datetime\<close>, which has a blank there. A run recorded on the day the window
  starts, before the hour it starts, compares greater and is counted: of the two runs
  only the second is within seven days of 8 January 12:00:00, yet \<open>getFlakiness\<close> counts
  both and reports the test flaky.
\<close>

theorem flakiness_counts_run_before_window:
  "map (\<lambda>run. (id' run, timestamp run)) (runs (the (db two_runs))) =
     [(1, ''2025-01-01T00:00:01.000Z''), (2, ''2025-01-08T11:00:00.000Z'')] \<and>
   map (\<lambda>r. (run_id r, test_name r, status r)) (results (the (db two_runs))) =
     [(1, ''t1'', ''pass''), (2, ''t1'', ''fail'')] \<and>
   flakiness_on_8_january =
     Some \<lparr>passRate = ''50.0'', isFlaky = True, totalRuns = 2, passes = 1, failures' = 1\<rparr>"
  by code_simp

text \<open>
  Claim C6, at an input where the code departs from it. By the same comparison of texts
  \<open>cleanup\<close> keeps a run that is older than the retention when it was recorded on the
  day of the cutoff: on 31 January 12:00:00 the run of 1 January 00:00:01 is older than
  30 days, and it and its result are still there after \<open>cleanup\<close>.
\<close>

theorem cleanup_keeps_run_before_cutoff:
  "map (\<lambda>run. (id' run, timestamp run)) (runs (the (db cleanup_on_31_january))) =
     [(1, ''2025-01-01T00:00:01.000Z''), (2, ''2025-01-08T11:00:00.000Z'')] \<and>
   map (\<lambda>r. (run_id r, test_name r, status r)) (results (the (db cleanup_on_31_january))) =
     [(1, ''t1'', ''pass''), (2, ''t1'', ''fail'')]"
  by code_simp

section \<open>The persistent index: what hashError is blind to\<close>

lemma concat_rev_upt_last:
  assumes "\<And>k. m \<le> k \<Longrightarrow> k < n \<Longrightarrow> F k = []"
  shows "concat (map F (rev [m..<Suc n])) = (if m \<le> n then F n else [])"
proof (cases "m \<le> n")
  case False
  then show ?thesis by simp
next
  case True
  have "concat (map F (rev [m..<n])) = []"
    using assms by (auto simp: concat_eq_Nil_conv)
  with True show ?thesis by simp
qed

lemma drop_takeWhile: "drop (length (takeWhile P s)) s = dropWhile P s"
  by (simp add: dropWhile_eq_drop)

lemma drop_in_run:
  assumes "k < length (takeWhile P s)"
  shows "\<exists>x xs. drop k s = x # xs \<and> P x"
proof -
  from assms have k: "k < length s"
    using length_takeWhile_le [of P s] by simp
  have "P (s ! k)"
    using assms by (metis nth_length_takeWhile takeWhile_nth nth_mem set_takeWhileD)
  with k show ?thesis
    by (metis Cons_nth_drop_Suc)
qed


lemma rx_run_Star_then:
  assumes "\<And>x xs cp. in_class c x \<Longrightarrow> rx_run ic r (x # xs) cp = []"
  shows "rx_run ic (Seq (Star c) r) s caps = rx_run ic r (dropWhile (in_class c) s) caps"
proof -
  let ?n = "length (takeWhile (in_class c) s)"
  let ?F = "\<lambda>k. rx_run ic r (drop k s) caps"
  have "rx_run ic (Seq (Star c) r) s caps = concat (map ?F (rev [0..<Suc ?n]))"
    by (simp add: comp_def)
  also have "\<dots> = (if 0 \<le> ?n then ?F ?n else [])"
  proof (rule concat_rev_upt_last)
    fix k assume "k < ?n"
    from drop_in_run [OF this] assms show "?F k = []" by auto
  qed
  finally show ?thesis by (simp add: drop_takeWhile)
qed

lemma rx_run_Lit1:
  "rx_run False (Lit [q]) s caps = (case s of [] \<Rightarrow> [] | x # xs \<Rightarrow> if x = q then [(xs, caps)] else [])"
  by (cases s) (auto simp: lit_prefix_def canonicalize_def)

lemma rx_run_Lit1_then:
  "rx_run False (Seq (Lit [q]) r) s caps =
     (case s of [] \<Rightarrow> [] | x # xs \<Rightarrow> if x = q then rx_run False r xs caps else [])"
  by (cases s) (auto simp: lit_prefix_def canonicalize_def)


lemma digit_not_colon: "in_class Digit x \<Longrightarrow> x \<noteq> CHR '':''"
  by (auto simp: digits_def)


lemma rx_run_quoted:
  "rx_run False (source (re_quoted q)) s [] =
     (case s of
        [] \<Rightarrow> []
      | x # xs \<Rightarrow>
          if x = q then
            (case dropWhile (\<lambda>c. c \<noteq> q) xs of [] \<Rightarrow> [] | y # ys \<Rightarrow> [(ys, [])])
          else [])"
proof -
  have no: "\<And>x xs cp. in_class (NotChar q) x \<Longrightarrow> rx_run False (Lit [q]) (x # xs) cp = []"
    by (simp add: rx_run_Lit1 del: rx_run.simps)
  have inner: "rx_run False (Seq (Star (NotChar q)) (Lit [q])) xs [] =
      (case dropWhile (\<lambda>c. c \<noteq> q) xs of [] \<Rightarrow> [] | y # ys \<Rightarrow> [(ys, [])])" for xs
  proof -
    have "in_class (NotChar q) = (\<lambda>c. c \<noteq> q)" by (simp add: fun_eq_iff)
    with rx_run_Star_then [of "NotChar q" False "Lit [q]" xs "[]", OF no]
    have "rx_run False (Seq (Star (NotChar q)) (Lit [q])) xs [] =
        rx_run False (Lit [q]) (dropWhile (\<lambda>c. c \<noteq> q) xs) []"
      by simp
    also have "\<dots> = (case dropWhile (\<lambda>c. c \<noteq> q) xs of [] \<Rightarrow> [] | y # ys \<Rightarrow> [(ys, [])])"
    proof (cases "dropWhile (\<lambda>c. c \<noteq> q) xs")
      case Nil
      show ?thesis unfolding Nil rx_run_Lit1 by simp
    next
      case (Cons y ys)
      then have "y = q" by (simp add: dropWhile_eq_Cons_conv)
      then show ?thesis unfolding Cons rx_run_Lit1 by simp
    qed
    finally show ?thesis .
  qed
  show ?thesis
    by (cases s) (simp_all add: re_quoted_def rx_run_Lit1_then inner del: rx_run.simps)
qed






lemma ic_quoted: "ignoreCase (re_quoted q) = False"
  by (simp add: re_quoted_def)


lemma rx_at_quoted_Nil: "rx_at (re_quoted q) [] = None"
  unfolding rx_at_def ic_quoted rx_run_quoted by simp



lemma replace_quoted_Nil: "replace_quoted q [] = []"
  by (simp add: replace_quoted_def str_replace_all.simps [of _ _ "[]"] rx_at_quoted_Nil)









lemma shape_digit:
  "in_class Digit c \<Longrightarrow> shape (c # cs) = None # shape (dropWhile (in_class Digit) cs)"
  by simp

lemma shape_other: "\<not> in_class Digit c \<Longrightarrow> shape (c # cs) = Some c # shape cs"
  by simp









lemma colon_not_digit: "\<not> in_class Digit (CHR '':'')"
  using digit_not_colon by blast




























end
